theory Spec2Isabelle
  imports Main "HOL-Library.Monad_Syntax"
begin

section \<open>Conventions of the embedding\<close>

text \<open>
  The kernels of \<^verbatim>\<open>inc/dg/backend/mpi_matrix.h\<close> and
  \<^verbatim>\<open>inc/dg/mpi_backend/mpi_precon_blas.h\<close> are written over \<^verbatim>\<open>double\<close>. The
  embedding keeps the value type abstract: every function below is polymorphic in a
  type \<open>'a\<close> that only has a zero, a sum and a product, with no law assumed, so a
  statement proved here holds whatever the rounding of \<open>+\<close> and \<open>*\<close> is. No theorem
  asks for an algebraic law. Where a statement is about rounding, infinities or NaN,
  the kernels are run at the type \<open>dbl\<close> of the section on doubles.

  A call has no defined result where the C++ reads or writes a \<^verbatim>\<open>std::vector\<close> out
  of range, divides by zero, leaves a non-void function without \<^verbatim>\<open>return\<close>, or
  fails an \<^verbatim>\<open>assert\<close> of a \<^verbatim>\<open>DG_DEBUG\<close> build: the model returns \<open>None\<close> there.

  Loop counters and indices are \<^verbatim>\<open>unsigned\<close> (32 bit). Container sizes and grid
  dimensions are taken below \<open>2^32\<close>; the wrap-around is written out where it
  happens for small values too: in \<^verbatim>\<open>rows-1\<close> for \<^verbatim>\<open>rows = 0\<close>, and in every index
  expression (some add a signed \<^verbatim>\<open>int\<close>).
\<close>

definition u32 :: "int \<Rightarrow> nat" where
  "u32 z = nat (z mod 4294967296)"

definition read_at :: "'b list \<Rightarrow> nat \<Rightarrow> 'b option" where
  "read_at xs i = (if i < length xs then Some (xs ! i) else None)"

definition write_at :: "'b list \<Rightarrow> nat \<Rightarrow> 'b \<Rightarrow> 'b list option" where
  "write_at xs i v = (if i < length xs then Some (xs[i := v]) else None)"

text \<open>\<^verbatim>\<open>for (i in is) s = body i s\<close>, stopping where the body has no defined result.\<close>

fun for_loop :: "nat list \<Rightarrow> (nat \<Rightarrow> 's \<Rightarrow> 's option) \<Rightarrow> 's \<Rightarrow> 's option" where
  "for_loop [] body s = Some s"
| "for_loop (i # is) body s =
     (case body i s of None \<Rightarrow> None | Some s' \<Rightarrow> for_loop is body s')"

definition assert :: "bool \<Rightarrow> bool \<Rightarrow> unit option" where
  \<comment> \<open>\<^verbatim>\<open>#ifdef DG_DEBUG assert(c); #endif\<close>\<close>
  "assert dbg c = (if dbg \<and> \<not> c then None else Some ())"

section \<open>Data model\<close>

datatype MPI_Comm = MPI_COMM_WORLD | Comm nat

datatype bc = PER | DIR | NEU | DIR_NEU | NEU_DIR

text \<open>
  \<^verbatim>\<open>MPI_Vector\<close> (its header is not part of the sources): the members the kernels
  read. \<^verbatim>\<open>mpi_matrix.h\<close> reads \<^verbatim>\<open>n(), Nx(), Ny(), Nz(), data()\<close>;
  \<^verbatim>\<open>mpi_precon_blas.h\<close> reads \<^verbatim>\<open>stride, Nx, Ny, Nz, data\<close>, and \<^verbatim>\<open>size()\<close> and
  \<^verbatim>\<open>operator[]\<close>, taken as the size and the elements of \<^verbatim>\<open>data\<close>. The vector holds
  no communicator: \<^verbatim>\<open>x_col\<close> and \<^verbatim>\<open>x_row\<close> are handed one.
\<close>

record 'a MPI_Vector =
  v_n :: nat
  v_Nx :: nat
  v_Ny :: nat
  v_Nz :: nat
  v_stride :: nat
  v_data :: "'a list"

record 'a MPI_Precon =
  p_data :: "'a list"

record 'a BoundaryTerms =
  bt_data :: "'a list list"
  bt_row :: "int list"
  bt_col :: "int list"

record 'a MPI_Matrix =
  precond :: "'a MPI_Precon"
  dataY :: "'a list list"
  dataX :: "'a list list"
  offset :: "int list"
  xterm :: "'a BoundaryTerms"
  yterm :: "'a BoundaryTerms"
  bcx :: bc
  bcy :: bc
  communicator :: MPI_Comm

text \<open>
  The two constructors of \<^verbatim>\<open>MPI_Matrix\<close>: \<^verbatim>\<open>number\<close> empty blocks in each
  direction, offsets zero, empty boundary tables and preconditioner, and the
  communicator that the caller supplies.
\<close>

definition MPI_Matrix2 :: "bc \<Rightarrow> bc \<Rightarrow> MPI_Comm \<Rightarrow> nat \<Rightarrow> 'a MPI_Matrix" where
  "MPI_Matrix2 bx by c number =
     \<lparr> precond = \<lparr> p_data = [] \<rparr>,
       dataY = replicate number [], dataX = replicate number [],
       offset = replicate number 0,
       xterm = \<lparr> bt_data = [], bt_row = [], bt_col = [] \<rparr>,
       yterm = \<lparr> bt_data = [], bt_row = [], bt_col = [] \<rparr>,
       bcx = bx, bcy = by, communicator = c \<rparr>"

definition MPI_Matrix1 :: "bc \<Rightarrow> MPI_Comm \<Rightarrow> nat \<Rightarrow> 'a MPI_Matrix" where
  "MPI_Matrix1 bx c number = MPI_Matrix2 bx PER c number"

text \<open>
  The MPI calls a kernel makes, in order, and what the library and the absent
  \<^verbatim>\<open>mpi_vector.h\<close> answer: the ghost exchanges \<^verbatim>\<open>x_col\<close>, \<^verbatim>\<open>x_row\<close> return the vector
  with its ghost cells filled, \<^verbatim>\<open>MPI_Allreduce\<close> with \<^verbatim>\<open>MPI_SUM\<close> returns the sum the
  group delivers for this process's contribution. \<open>DG_DEBUG\<close> tells whether the
  build compiles the assertions.
\<close>

datatype mpi_call = Comm_rank MPI_Comm | X_col MPI_Comm | X_row MPI_Comm | Allreduce_sum MPI_Comm

fun comm_of :: "mpi_call \<Rightarrow> MPI_Comm" where
  "comm_of (Comm_rank c) = c"
| "comm_of (X_col c) = c"
| "comm_of (X_row c) = c"
| "comm_of (Allreduce_sum c) = c"

record 'a env =
  DG_DEBUG :: bool
  x_col :: "MPI_Comm \<Rightarrow> 'a MPI_Vector \<Rightarrow> 'a MPI_Vector"
  x_row :: "MPI_Comm \<Rightarrow> 'a MPI_Vector \<Rightarrow> 'a MPI_Vector"
  MPI_Allreduce :: "MPI_Comm \<Rightarrow> 'a \<Rightarrow> 'a"

section \<open>Boundary terms (\<^verbatim>\<open>mpi_matrix.h\<close>)\<close>

text \<open>The entry of \<^verbatim>\<open>y\<close> that \<^verbatim>\<open>applyX\<close> writes for block row \<open>r\<close>, and the one of
  \<^verbatim>\<open>applyY\<close>.\<close>

definition idxX :: "'a MPI_Vector \<Rightarrow> int \<Rightarrow> nat \<Rightarrow> nat \<Rightarrow> nat \<Rightarrow> nat \<Rightarrow> nat" where
  "idxX x r s i k l =
     u32 ((int (((s * v_Ny x + i) * v_n x + k) * v_Nx x) + r + 1) * int (v_n x) + int l)"

definition idxY :: "'a MPI_Vector \<Rightarrow> int \<Rightarrow> nat \<Rightarrow> nat \<Rightarrow> nat \<Rightarrow> nat \<Rightarrow> nat" where
  "idxY x r s k j l =
     u32 ((((int (s * v_Ny x) + r + 1) * int (v_n x) + int k) * int (v_Nx x) + int j)
            * int (v_n x) + int l)"

definition applyX_zero :: "'a::zero BoundaryTerms \<Rightarrow> 'a MPI_Vector \<Rightarrow> 'a list \<Rightarrow> 'a list option" where
  "applyX_zero bt x =
     for_loop [0..<length (bt_data bt)] (\<lambda>m.
     for_loop [0..<v_Nz x] (\<lambda>s.
     for_loop [1..<u32 (int (v_Ny x) - 1)] (\<lambda>i.
     for_loop [0..<v_n x] (\<lambda>k.
     for_loop [0..<v_n x] (\<lambda>l.
     for_loop [0..<v_n x] (\<lambda>q yd. do {
       r \<leftarrow> read_at (bt_row bt) m;
       write_at yd (idxX x r s i k l) 0 }))))))"

definition applyX_add :: "'a::{plus,times} BoundaryTerms \<Rightarrow> 'a MPI_Vector \<Rightarrow> 'a list \<Rightarrow> 'a list option" where
  "applyX_add bt x =
     for_loop [0..<length (bt_data bt)] (\<lambda>m.
     for_loop [0..<v_Nz x] (\<lambda>s.
     for_loop [1..<u32 (int (v_Ny x) - 1)] (\<lambda>i.
     for_loop [0..<v_n x] (\<lambda>k.
     for_loop [0..<v_n x] (\<lambda>l.
     for_loop [0..<v_n x] (\<lambda>q yd. do {
       r \<leftarrow> read_at (bt_row bt) m;
       c \<leftarrow> read_at (bt_col bt) m;
       d \<leftarrow> read_at (bt_data bt ! m) (u32 (int (l * v_n x + q)));
       a \<leftarrow> read_at (v_data x) (idxX x c s i k q);
       b \<leftarrow> read_at yd (idxX x r s i k l);
       write_at yd (idxX x r s i k l) (b + d * a) }))))))"

definition applyX :: "'a::{zero,plus,times} BoundaryTerms \<Rightarrow> 'a MPI_Vector \<Rightarrow> 'a MPI_Vector
    \<Rightarrow> 'a MPI_Vector option" where
  "applyX bt x y =
     (if bt_data bt = [] then Some y
      else do {
        y1 \<leftarrow> applyX_zero bt x (v_data y);
        y2 \<leftarrow> applyX_add bt x y1;
        Some (y\<lparr>v_data := y2\<rparr>) })"

definition applyY_zero :: "'a::zero BoundaryTerms \<Rightarrow> 'a MPI_Vector \<Rightarrow> 'a list \<Rightarrow> 'a list option" where
  "applyY_zero bt x =
     for_loop [0..<length (bt_data bt)] (\<lambda>m.
     for_loop [0..<v_Nz x] (\<lambda>s.
     for_loop [0..<v_n x] (\<lambda>k.
     for_loop [1..<u32 (int (v_Nx x) - 1)] (\<lambda>j.
     for_loop [0..<v_n x] (\<lambda>l.
     for_loop [0..<v_n x] (\<lambda>p yd. do {
       r \<leftarrow> read_at (bt_row bt) m;
       write_at yd (idxY x r s k j l) 0 }))))))"

definition applyY_add :: "'a::{plus,times} BoundaryTerms \<Rightarrow> 'a MPI_Vector \<Rightarrow> 'a list \<Rightarrow> 'a list option" where
  "applyY_add bt x =
     for_loop [0..<length (bt_data bt)] (\<lambda>m.
     for_loop [0..<v_Nz x] (\<lambda>s.
     for_loop [0..<v_n x] (\<lambda>k.
     for_loop [1..<u32 (int (v_Nx x) - 1)] (\<lambda>j.
     for_loop [0..<v_n x] (\<lambda>l.
     for_loop [0..<v_n x] (\<lambda>p yd. do {
       r \<leftarrow> read_at (bt_row bt) m;
       c \<leftarrow> read_at (bt_col bt) m;
       d \<leftarrow> read_at (bt_data bt ! m) (u32 (int (k * v_n x + p)));
       a \<leftarrow> read_at (v_data x) (idxY x c s p j l);
       b \<leftarrow> read_at yd (idxY x r s k j l);
       write_at yd (idxY x r s k j l) (b + d * a) }))))))"

definition applyY :: "'a::{zero,plus,times} BoundaryTerms \<Rightarrow> 'a MPI_Vector \<Rightarrow> 'a MPI_Vector
    \<Rightarrow> 'a MPI_Vector option" where
  "applyY bt x y =
     (if bt_data bt = [] then Some y
      else do {
        y1 \<leftarrow> applyY_zero bt x (v_data y);
        y2 \<leftarrow> applyY_add bt x y1;
        Some (y\<lparr>v_data := y2\<rparr>) })"

text \<open>The entries of \<^verbatim>\<open>y\<close> that the loops of \<^verbatim>\<open>applyX\<close> (of \<^verbatim>\<open>applyY\<close>) write, in
  their order.\<close>

definition targetsX :: "'a BoundaryTerms \<Rightarrow> 'a MPI_Vector \<Rightarrow> nat list" where
  "targetsX bt x = [idxX x (bt_row bt ! m) s i k l.
       m \<leftarrow> [0..<length (bt_data bt)], s \<leftarrow> [0..<v_Nz x],
       i \<leftarrow> [1..<u32 (int (v_Ny x) - 1)], k \<leftarrow> [0..<v_n x], l \<leftarrow> [0..<v_n x]]"

definition targetsY :: "'a BoundaryTerms \<Rightarrow> 'a MPI_Vector \<Rightarrow> nat list" where
  "targetsY bt x = [idxY x (bt_row bt ! m) s k j l.
       m \<leftarrow> [0..<length (bt_data bt)], s \<leftarrow> [0..<v_Nz x],
       k \<leftarrow> [0..<v_n x], j \<leftarrow> [1..<u32 (int (v_Nx x) - 1)], l \<leftarrow> [0..<v_n x]]"

section \<open>Diagonal weighting (\<^verbatim>\<open>mpi_precon_blas.h\<close>)\<close>

definition dot_index :: "'a MPI_Vector \<Rightarrow> nat \<Rightarrow> nat \<Rightarrow> nat \<Rightarrow> nat \<Rightarrow> nat" where
  \<comment> \<open>\<^verbatim>\<open>((k*x.Ny + i)*x.Nx + j)*x.stride + l\<close>\<close>
  "dot_index x k i j l = u32 (int (((k * v_Ny x + i) * v_Nx x + j) * v_stride x + l))"

definition doDot_local :: "'a::{zero,plus,times} MPI_Vector \<Rightarrow> 'a MPI_Precon \<Rightarrow> 'a MPI_Vector
    \<Rightarrow> 'a option" where
  \<comment> \<open>the loop nest that fills \<^verbatim>\<open>temp\<close>\<close>
  "doDot_local x m y =
     for_loop [0..<v_Nz x] (\<lambda>k.
     for_loop [1..<u32 (int (v_Ny x) - 1)] (\<lambda>i.
     for_loop [1..<u32 (int (v_Nx x) - 1)] (\<lambda>j.
     for_loop [0..<v_stride x] (\<lambda>l temp. do {
       a \<leftarrow> read_at (v_data x) (dot_index x k i j l);
       w \<leftarrow> read_at (p_data m) l;
       b \<leftarrow> read_at (v_data y) (dot_index x k i j l);
       Some (temp + a * w * b) })))) 0"

text \<open>The entries these loops visit, in their order: rows \<open>1 .. Ny-2\<close> and columns
  \<open>1 .. Nx-2\<close> of every plane (for dimensions from 1 on; \<^verbatim>\<open>x.Ny-1\<close> wraps at 0).\<close>

definition interior :: "'a MPI_Vector \<Rightarrow> nat list" where
  "interior x = [dot_index x k i j l.
       k \<leftarrow> [0..<v_Nz x], i \<leftarrow> [1..<u32 (int (v_Ny x) - 1)],
       j \<leftarrow> [1..<u32 (int (v_Nx x) - 1)], l \<leftarrow> [0..<v_stride x]]"

definition doDot :: "'a::{zero,plus,times} env \<Rightarrow> 'a MPI_Vector \<Rightarrow> 'a MPI_Precon \<Rightarrow> 'a MPI_Vector
    \<Rightarrow> ('a \<times> mpi_call list) option" where
  "doDot e x m y = do {
     _ \<leftarrow> assert (DG_DEBUG e) (length (v_data x) = length (v_data y));
     _ \<leftarrow> assert (DG_DEBUG e) (v_stride x = length (p_data m));
     temp \<leftarrow> doDot_local x m y;
     Some (MPI_Allreduce e MPI_COMM_WORLD temp, [Allreduce_sum MPI_COMM_WORLD]) }"

text \<open>The norm form calls the weighted product and has no \<^verbatim>\<open>return\<close> statement:
  control leaves the non-void function at its closing brace.\<close>

definition doDot1 :: "'a::{zero,plus,times} env \<Rightarrow> 'a MPI_Precon \<Rightarrow> 'a MPI_Vector
    \<Rightarrow> ('a \<times> mpi_call list) option" where
  "doDot1 e m x = do {
     _ \<leftarrow> doDot e x m x;
     None }"

text \<open>Modelled from the spec: \<^verbatim>\<open>dg::blas1::detail::doAxpby\<close> for \<^verbatim>\<open>MPIVectorTag\<close> is
  not part of the sources; the spec's elementwise \<^verbatim>\<open>axpby(a, x, b, y)\<close> is
  \<open>y \<leftarrow> a\<cdot>x + b\<cdot>y\<close> over same-shaped vectors.\<close>

definition doAxpby :: "'a::{plus,times} \<Rightarrow> 'a MPI_Vector \<Rightarrow> 'a \<Rightarrow> 'a MPI_Vector
    \<Rightarrow> 'a MPI_Vector option" where
  "doAxpby a x b y = do {
     yd \<leftarrow> for_loop [0..<length (v_data x)] (\<lambda>i yd. do {
             xv \<leftarrow> read_at (v_data x) i;
             yv \<leftarrow> read_at yd i;
             write_at yd i (a * xv + b * yv) }) (v_data y);
     Some (y\<lparr>v_data := yd\<rparr>) }"

definition precon_asserts :: "bool \<Rightarrow> 'a MPI_Precon \<Rightarrow> 'a MPI_Vector \<Rightarrow> 'a MPI_Vector
    \<Rightarrow> unit option" where
  \<comment> \<open>the \<^verbatim>\<open>DG_DEBUG\<close> block in front of both loops of \<^verbatim>\<open>doSymv\<close>\<close>
  "precon_asserts dbg m x y = do {
     _ \<leftarrow> assert dbg (length (p_data m) \<ge> 1);
     _ \<leftarrow> assert dbg (length (v_data x) = length (v_data y));
     _ \<leftarrow> assert dbg (length (v_data x) mod length (p_data m) = 0);
     assert dbg (v_stride x = length (p_data m)) }"

definition weight_at :: "'a MPI_Precon \<Rightarrow> nat \<Rightarrow> 'a option" where
  \<comment> \<open>\<^verbatim>\<open>m.data[i%stride]\<close> with \<^verbatim>\<open>stride = m.data.size()\<close>\<close>
  "weight_at m i =
     (if length (p_data m) = 0 then None else read_at (p_data m) (i mod length (p_data m)))"

definition doSymv5 :: "bool \<Rightarrow> 'a::{zero,one,plus,times} \<Rightarrow> 'a MPI_Precon \<Rightarrow> 'a MPI_Vector \<Rightarrow> 'a
    \<Rightarrow> 'a MPI_Vector \<Rightarrow> 'a MPI_Vector option" where
  \<comment> \<open>\<^verbatim>\<open>doSymv(alpha, m, x, beta, y, MPIPreconTag, MPIVectorTag)\<close>, \<open>x\<close> and \<open>y\<close> two objects\<close>
  "doSymv5 dbg alpha m x beta y = do {
     _ \<leftarrow> assert dbg (length (v_data x) = length (v_data y));
     if alpha = 0 then
       (if beta = 1 then Some y else doAxpby 0 x beta y)
     else do {
       _ \<leftarrow> precon_asserts dbg m x y;
       yd \<leftarrow> for_loop [0..<length (v_data x)] (\<lambda>i yd. do {
               w \<leftarrow> weight_at m i;
               xv \<leftarrow> read_at (v_data x) i;
               yv \<leftarrow> read_at yd i;
               write_at yd i (alpha * w * xv + beta * yv) }) (v_data y);
       Some (y\<lparr>v_data := yd\<rparr>) } }"

definition doSymv :: "bool \<Rightarrow> 'a::times MPI_Precon \<Rightarrow> 'a MPI_Vector \<Rightarrow> 'a MPI_Vector
    \<Rightarrow> 'a MPI_Vector option" where
  \<comment> \<open>\<^verbatim>\<open>doSymv(m, x, y, MPIPreconTag, MPIVectorTag)\<close>, \<open>x\<close> and \<open>y\<close> two objects\<close>
  "doSymv dbg m x y = do {
     _ \<leftarrow> precon_asserts dbg m x y;
     yd \<leftarrow> for_loop [0..<length (v_data x)] (\<lambda>i yd. do {
             w \<leftarrow> weight_at m i;
             xv \<leftarrow> read_at (v_data x) i;
             write_at yd i (w * xv) }) (v_data y);
     Some (y\<lparr>v_data := yd\<rparr>) }"

text \<open>Modelled from the spec: the three-tag
  \<^verbatim>\<open>doSymv(p_, y, y, MPIPreconTag(), MPIVectorTag(), MPIVectorTag())\<close> that
  \<^verbatim>\<open>MPI_Matrix::symv\<close> calls in its last statement is not in the sources (the overload
  above takes two tags and is written against another \<^verbatim>\<open>MPI_Vector\<close>). Step 4 of the
  spec's matrix-vector product: "if a diagonal weighting is attached, apply it as a
  final elementwise scale". Every entry of \<open>y\<close> is multiplied by the weight of its
  position, \<^verbatim>\<open>p_.data[i % stride]\<close> with \<^verbatim>\<open>stride = p_.data.size()\<close> (a weighting holds
  one weight per position within a stride, as in the kernels above); input and
  output are one object, so the factor read is what the loop has left in \<open>y\<close> so
  far. No assertion is modelled.\<close>

definition doSymv_inplace :: "'a::times MPI_Precon \<Rightarrow> 'a MPI_Vector \<Rightarrow> 'a MPI_Vector option" where
  "doSymv_inplace m y = do {
     yd \<leftarrow> for_loop [0..<length (v_data y)] (\<lambda>i yd. do {
             w \<leftarrow> weight_at m i;
             xv \<leftarrow> read_at yd i;
             write_at yd i (w * xv) }) (v_data y);
     Some (y\<lparr>v_data := yd\<rparr>) }"

section \<open>\<^verbatim>\<open>MPI_Matrix::symv\<close> (\<^verbatim>\<open>mpi_matrix.h\<close>)\<close>

definition idx :: "'a MPI_Vector \<Rightarrow> nat \<Rightarrow> nat \<Rightarrow> nat \<Rightarrow> nat \<Rightarrow> nat \<Rightarrow> int \<Rightarrow> nat" where
  \<comment> \<open>\<^verbatim>\<open>(((s*rows+i)*n+k)*cols + j)*n + l + off\<close>\<close>
  "idx x s i k j l off =
     u32 (int ((((s * v_Ny x + i) * v_n x + k) * v_Nx x + j) * v_n x + l) + off)"

definition symv_flags :: "'a MPI_Matrix \<Rightarrow> (bool \<times> bool) option" where
  \<comment> \<open>the loop that sets \<^verbatim>\<open>(updateX, updateY)\<close>\<close>
  "symv_flags M =
     for_loop [0..<length (dataX M)] (\<lambda>k (updateX, updateY). do {
       dy \<leftarrow> read_at (dataY M) k;
       dx \<leftarrow> read_at (dataX M) k;
       Some (if dx \<noteq> [] then True else updateX, if dy \<noteq> [] then True else updateY) })
     (False, False)"

definition symv_exchange :: "'a env \<Rightarrow> 'a MPI_Matrix \<Rightarrow> 'a MPI_Vector
    \<Rightarrow> ('a MPI_Vector \<times> mpi_call list) option" where
  "symv_exchange e M x = do {
     (updateX, updateY) \<leftarrow> symv_flags M;
     let c = communicator M;
     let (x1, l1) = (if updateX then (x_col e c x, [X_col c]) else (x, []));
     let (x2, l2) = (if updateY then (x_row e c x1, [X_row c]) else (x1, []));
     Some (x2, Comm_rank c # l1 @ l2) }"

definition symv_X :: "'a::{plus,times} MPI_Matrix \<Rightarrow> 'a MPI_Vector \<Rightarrow> nat \<Rightarrow> 'a list
    \<Rightarrow> 'a list option" where
  "symv_X M x m =
     for_loop [0..<v_Nz x] (\<lambda>s.
     for_loop [1..<u32 (int (v_Ny x) - 1)] (\<lambda>i.
     for_loop [0..<v_n x] (\<lambda>k.
     for_loop [1..<u32 (int (v_Nx x) - 1)] (\<lambda>j.
     for_loop [0..<v_n x] (\<lambda>l.
     for_loop [0..<v_n x] (\<lambda>q yd. do {
       d \<leftarrow> read_at (dataX M ! m) (u32 (int (l * v_n x + q)));
       off \<leftarrow> read_at (offset M) m;
       a \<leftarrow> read_at (v_data x) (idx x s i k j q off);
       b \<leftarrow> read_at yd (idx x s i k j l 0);
       write_at yd (idx x s i k j l 0) (b + d * a) }))))))"

definition symv_Y :: "'a::{plus,times} MPI_Matrix \<Rightarrow> 'a MPI_Vector \<Rightarrow> nat \<Rightarrow> 'a list
    \<Rightarrow> 'a list option" where
  "symv_Y M x m =
     for_loop [0..<v_Nz x] (\<lambda>s.
     for_loop [1..<u32 (int (v_Ny x) - 1)] (\<lambda>i.
     for_loop [0..<v_n x] (\<lambda>k.
     for_loop [1..<u32 (int (v_Nx x) - 1)] (\<lambda>j.
     for_loop [0..<v_n x] (\<lambda>l.
     for_loop [0..<v_n x] (\<lambda>p yd. do {
       d \<leftarrow> read_at (dataY M ! m) (u32 (int (k * v_n x + p)));
       off \<leftarrow> read_at (offset M) m;
       a \<leftarrow> read_at (v_data x) (idx x s i p j l off);
       b \<leftarrow> read_at yd (idx x s i k j l 0);
       write_at yd (idx x s i k j l 0) (b + d * a) }))))))"

definition symv_blocks :: "'a::{plus,times} MPI_Matrix \<Rightarrow> 'a MPI_Vector \<Rightarrow> 'a list
    \<Rightarrow> 'a list option" where
  "symv_blocks M x =
     for_loop [0..<length (dataX M)] (\<lambda>m yd. do {
       dx \<leftarrow> read_at (dataX M) m;
       y1 \<leftarrow> (if dx \<noteq> [] then symv_X M x m yd else Some yd);
       dy \<leftarrow> read_at (dataY M) m;
       if dy \<noteq> [] then symv_Y M x m y1 else Some y1 })"

text \<open>The body of \<^verbatim>\<open>symv\<close> up to the two boundary tables, then the whole of it: the
  last statement hands \<open>y\<close> to the preconditioner when \<^verbatim>\<open>p_.data\<close> is not empty.\<close>

definition symv_stencil :: "'a::{zero,plus,times} env \<Rightarrow> 'a MPI_Matrix \<Rightarrow> 'a MPI_Vector
    \<Rightarrow> 'a MPI_Vector \<Rightarrow> ('a MPI_Vector \<times> 'a MPI_Vector \<times> mpi_call list) option" where
  "symv_stencil e M x y = do {
     (x', calls) \<leftarrow> symv_exchange e M x;
     _ \<leftarrow> assert (DG_DEBUG e) (length (v_data x') = length (v_data y));
     y0 \<leftarrow> for_loop [0..<length (v_data y)] (\<lambda>i yd. write_at yd i 0) (v_data y);
     y1 \<leftarrow> symv_blocks M x' y0;
     y2 \<leftarrow> applyX (xterm M) x' (y\<lparr>v_data := y1\<rparr>);
     y3 \<leftarrow> applyY (yterm M) x' y2;
     Some (x', y3, calls) }"

definition symv :: "'a::{zero,plus,times} env \<Rightarrow> 'a MPI_Matrix \<Rightarrow> 'a MPI_Vector
    \<Rightarrow> 'a MPI_Vector \<Rightarrow> ('a MPI_Vector \<times> 'a MPI_Vector \<times> mpi_call list) option" where
  "symv e M x y = do {
     (x', y3, calls) \<leftarrow> symv_stencil e M x y;
     y4 \<leftarrow> (if p_data (precond M) \<noteq> [] then doSymv_inplace (precond M) y3 else Some y3);
     Some (x', y4, calls) }"

section \<open>Dot products of vectors of vectors\<close>

text \<open>
  \<^verbatim>\<open>doDot_superacc\<close> and \<^verbatim>\<open>doDot\<close> for \<^verbatim>\<open>VectorVectorTag\<close> (the header guarded by
  \<^verbatim>\<open>_DG_BLAS_STD_VECTOR_\<close>, in \<^verbatim>\<open>inc/dg/topology/filter.h\<close>) and \<^verbatim>\<open>doDot\<close> for
  \<^verbatim>\<open>std::vector\<close> of \<^verbatim>\<open>std_matrix_blas.cuh\<close>. Here a failed \<^verbatim>\<open>DG_DEBUG\<close> assertion and undefined
  behaviour are told apart. The code has no other way to fail: it throws nothing.

  The \<^verbatim>\<open>exblas\<close> library is not part of the sources; what the code uses of it is a
  parameter: the bounds \<^verbatim>\<open>IMIN\<close>, \<^verbatim>\<open>IMAX\<close>, \<^verbatim>\<open>Normalize\<close> (what it leaves in the
  accumulator) and \<^verbatim>\<open>Round\<close>. So are the dot products of the component vectors
  (the overloads for the components' category). A superaccumulator is a
  \<^verbatim>\<open>std::vector<int64_t>\<close>.
\<close>

datatype failure = Assertion_failed | Undefined_behaviour

record 'r exblas =
  IMIN :: int
  IMAX :: int
  Normalize :: "int list \<Rightarrow> int list"
  Round :: "int list \<Rightarrow> 'r"

fun for_each :: "'i list \<Rightarrow> ('i \<Rightarrow> 's \<Rightarrow> failure + 's) \<Rightarrow> 's \<Rightarrow> failure + 's" where
  "for_each [] body s = Inr s"
| "for_each (i # is) body s =
     (case body i s of Inl e \<Rightarrow> Inl e | Inr s' \<Rightarrow> for_each is body s')"

definition add_int64 :: "int list \<Rightarrow> int list \<Rightarrow> int \<Rightarrow> failure + int list" where
  \<comment> \<open>\<^verbatim>\<open>a[k] += b[k]\<close> for \<^verbatim>\<open>int k\<close> on \<^verbatim>\<open>int64_t\<close> elements\<close>
  "add_int64 a b k =
     (if 0 \<le> k \<and> nat k < length a \<and> nat k < length b
         \<and> - (2 ^ 63) \<le> a ! nat k + b ! nat k \<and> a ! nat k + b ! nat k < 2 ^ 63
      then Inr (a[nat k := a ! nat k + b ! nat k])
      else Inl Undefined_behaviour)"

definition merge_into_first :: "'r exblas \<Rightarrow> nat \<Rightarrow> int list list \<Rightarrow> failure + int list list" where
  \<comment> \<open>the body of the second loop, for one \<open>i\<close>\<close>
  "merge_into_first ex i acc =
     (if acc ! 0 = [] \<or> acc ! i = [] then Inl Undefined_behaviour
      else
        let acc = acc[0 := Normalize ex (acc ! 0)];
            acc = acc[i := Normalize ex (acc ! i)]
        in case for_each [IMIN ex..IMAX ex - 1] (\<lambda>k a0. add_int64 a0 (acc ! i) k) (acc ! 0) of
             Inl e \<Rightarrow> Inl e
           | Inr a0 \<Rightarrow> Inr (acc[0 := a0]))"

definition doDot_superacc :: "bool \<Rightarrow> 'r exblas \<Rightarrow> ('v \<Rightarrow> 'w \<Rightarrow> failure + int list)
    \<Rightarrow> 'v list \<Rightarrow> 'w list \<Rightarrow> failure + int list" where
  "doDot_superacc dbg ex component x1 x2 =
     (if dbg \<and> x1 = [] then Inl Assertion_failed
      else if dbg \<and> length x1 \<noteq> length x2 then Inl Assertion_failed
      else
        case for_each [0..<length x1] (\<lambda>i acc.
               if i < length x2 then
                 (case component (x1 ! i) (x2 ! i) of
                    Inl e \<Rightarrow> Inl e
                  | Inr a \<Rightarrow> Inr (acc[i := a]))
               else Inl Undefined_behaviour) (replicate (length x1) []) of
          Inl e \<Rightarrow> Inl e
        | Inr acc \<Rightarrow>
            (case for_each [1..<length x1] (merge_into_first ex) acc of
               Inl e \<Rightarrow> Inl e
             | Inr acc \<Rightarrow> (if acc = [] then Inl Undefined_behaviour else Inr (acc ! 0))))"

definition doDot_vv :: "bool \<Rightarrow> 'r exblas \<Rightarrow> ('v \<Rightarrow> 'w \<Rightarrow> failure + int list)
    \<Rightarrow> 'v list \<Rightarrow> 'w list \<Rightarrow> failure + 'r" where
  \<comment> \<open>\<^verbatim>\<open>doDot(x, y, VectorVectorTag)\<close>\<close>
  "doDot_vv dbg ex component x y =
     (case doDot_superacc dbg ex component x y of
        Inl e \<Rightarrow> Inl e
      | Inr acc \<Rightarrow> Inr (Round ex acc))"

text \<open>\<^verbatim>\<open>std_matrix_blas.cuh\<close>: the accumulators are \<^verbatim>\<open>exblas::Superaccumulator\<close> objects
  (a type \<open>'s\<close> here), merged by \<^verbatim>\<open>Accumulate\<close> and read by \<^verbatim>\<open>Round\<close>;
  \<^verbatim>\<open>doDot_dispatch\<close> is the product of two components. The array \<^verbatim>\<open>acc(x.size())\<close> is
  assigned entry by entry before any entry is read, so the model builds it in that
  order.\<close>

definition doDot_std :: "bool \<Rightarrow> ('s \<Rightarrow> 's \<Rightarrow> 's) \<Rightarrow> ('s \<Rightarrow> 'r) \<Rightarrow> ('v \<Rightarrow> 'm \<Rightarrow> 'v \<Rightarrow> failure + 's)
    \<Rightarrow> 'v list \<Rightarrow> 'm \<Rightarrow> 'v list \<Rightarrow> failure + 'r" where
  "doDot_std dbg Accumulate Round_acc doDot_dispatch x m y =
     (if dbg \<and> length x \<noteq> length y then Inl Assertion_failed
      else
        case for_each [0..<length x] (\<lambda>i acc.
               if i < length y then
                 (case doDot_dispatch (x ! i) m (y ! i) of
                    Inl e \<Rightarrow> Inl e
                  | Inr a \<Rightarrow> Inr (acc @ [a]))
               else Inl Undefined_behaviour) [] of
          Inl e \<Rightarrow> Inl e
        | Inr acc \<Rightarrow>
            (case for_each [1..<length x] (\<lambda>i acc. Inr (acc[0 := Accumulate (acc ! 0) (acc ! i)])) acc of
               Inl e \<Rightarrow> Inl e
             | Inr acc \<Rightarrow> (if acc = [] then Inl Undefined_behaviour else Inr (Round_acc (acc ! 0)))))"

definition doDot_std1 :: "bool \<Rightarrow> ('s \<Rightarrow> 's \<Rightarrow> 's) \<Rightarrow> ('s \<Rightarrow> 'r) \<Rightarrow> ('v \<Rightarrow> 'm \<Rightarrow> 'v \<Rightarrow> failure + 's)
    \<Rightarrow> 'm \<Rightarrow> 'v list \<Rightarrow> failure + 'r" where
  \<comment> \<open>the norm form: \<^verbatim>\<open>return doDot(y, m, y, ...)\<close>\<close>
  "doDot_std1 dbg Accumulate Round_acc doDot_dispatch m y =
     doDot_std dbg Accumulate Round_acc doDot_dispatch y m y"

section \<open>Doubles\<close>

text \<open>
  To run the kernels at concrete \<^verbatim>\<open>double\<close> values: the integer-valued doubles of IEEE
  binary64 with both infinities and NaN. A sum or product of two integers is
  rounded to 53 significant bits, to nearest and ties to even, and overflows to an
  infinity from \<open>2^1024\<close> on. There are no fractions and no negative zero; the
  comparisons \<^verbatim>\<open>alpha == 0\<close> and \<^verbatim>\<open>beta == 1\<close> of the code are equalities here.
\<close>

datatype dbl = Finite int | PInf | MInf | NaN

function bit_length :: "int \<Rightarrow> nat" where
  "bit_length v = (if v \<le> 0 then 0 else Suc (bit_length (v div 2)))"
  by pat_completeness auto
termination
  by (relation "measure nat") auto

declare bit_length.simps [simp del]

definition round_to_double :: "int \<Rightarrow> dbl" where
  "round_to_double v =
     (let a = \<bar>v\<bar>;
          q = 2 ^ (bit_length a - 53);
          lo = (a div q) * q;
          r = a - lo;
          m = (if q < 2 * r \<or> (2 * r = q \<and> odd (a div q)) then lo + q else lo)
      in if 2 ^ 1024 \<le> m then (if v < 0 then MInf else PInf)
         else Finite (if v < 0 then - m else m))"

fun add_dbl :: "dbl \<Rightarrow> dbl \<Rightarrow> dbl" where
  "add_dbl (Finite a) (Finite b) = round_to_double (a + b)"
| "add_dbl NaN _ = NaN"
| "add_dbl _ NaN = NaN"
| "add_dbl PInf MInf = NaN"
| "add_dbl MInf PInf = NaN"
| "add_dbl PInf _ = PInf"
| "add_dbl _ PInf = PInf"
| "add_dbl MInf _ = MInf"
| "add_dbl _ MInf = MInf"

fun sign_inf :: "bool \<Rightarrow> dbl" where
  "sign_inf neg = (if neg then MInf else PInf)"

fun mul_dbl :: "dbl \<Rightarrow> dbl \<Rightarrow> dbl" where
  "mul_dbl (Finite a) (Finite b) = round_to_double (a * b)"
| "mul_dbl NaN _ = NaN"
| "mul_dbl _ NaN = NaN"
| "mul_dbl (Finite a) PInf = (if a = 0 then NaN else sign_inf (a < 0))"
| "mul_dbl (Finite a) MInf = (if a = 0 then NaN else sign_inf (0 < a))"
| "mul_dbl PInf (Finite b) = (if b = 0 then NaN else sign_inf (b < 0))"
| "mul_dbl MInf (Finite b) = (if b = 0 then NaN else sign_inf (0 < b))"
| "mul_dbl PInf PInf = PInf"
| "mul_dbl MInf MInf = PInf"
| "mul_dbl PInf MInf = MInf"
| "mul_dbl MInf PInf = MInf"

instantiation dbl :: "{zero,one,plus,times}"
begin

definition zero_dbl :: dbl where "zero_dbl = Finite 0"

definition one_dbl :: dbl where "one_dbl = Finite 1"

definition plus_dbl :: "dbl \<Rightarrow> dbl \<Rightarrow> dbl" where "plus_dbl a b = add_dbl a b"

definition times_dbl :: "dbl \<Rightarrow> dbl \<Rightarrow> dbl" where "times_dbl a b = mul_dbl a b"

instance ..

end

section \<open>What the boundary terms leave in \<open>y\<close>\<close>

text \<open>The products that the second loop nest of \<^verbatim>\<open>applyX\<close> (of \<^verbatim>\<open>applyY\<close>) adds, each with
  the entry of \<^verbatim>\<open>y\<close> it is added to, in the order of the loops; and the value of an
  entry \<open>t\<close> that held \<open>a\<close> after the products for \<open>t\<close> of such a list were added to it,
  one after the other.\<close>

definition productsX :: "'a::times BoundaryTerms \<Rightarrow> 'a MPI_Vector \<Rightarrow> (nat \<times> 'a) list" where
  "productsX bt x =
     [(idxX x (bt_row bt ! m) s i k l,
       bt_data bt ! m ! u32 (int (l * v_n x + q)) * v_data x ! idxX x (bt_col bt ! m) s i k q).
       m \<leftarrow> [0..<length (bt_data bt)], s \<leftarrow> [0..<v_Nz x],
       i \<leftarrow> [1..<u32 (int (v_Ny x) - 1)], k \<leftarrow> [0..<v_n x], l \<leftarrow> [0..<v_n x],
       q \<leftarrow> [0..<v_n x]]"

definition productsY :: "'a::times BoundaryTerms \<Rightarrow> 'a MPI_Vector \<Rightarrow> (nat \<times> 'a) list" where
  "productsY bt x =
     [(idxY x (bt_row bt ! m) s k j l,
       bt_data bt ! m ! u32 (int (k * v_n x + p)) * v_data x ! idxY x (bt_col bt ! m) s p j l).
       m \<leftarrow> [0..<length (bt_data bt)], s \<leftarrow> [0..<v_Nz x],
       k \<leftarrow> [0..<v_n x], j \<leftarrow> [1..<u32 (int (v_Nx x) - 1)], l \<leftarrow> [0..<v_n x],
       p \<leftarrow> [0..<v_n x]]"

definition add_to :: "'a::plus \<Rightarrow> nat \<Rightarrow> (nat \<times> 'a) list \<Rightarrow> 'a" where
  "add_to a t ops = foldl (+) a (map snd (filter (\<lambda>op. fst op = t) ops))"

text \<open>For the proofs: a piece of code that updates an array keeps its size; it
  \<open>clears ts\<close> when it stores 0 in the entries \<open>ts\<close> and leaves the others; it
  \<open>accumulates ops\<close> when it adds the products \<open>ops\<close> to their entries. Each speaks of
  the runs that have a defined result.\<close>

definition keeps_size :: "('b list \<Rightarrow> 'b list option) \<Rightarrow> bool" where
  "keeps_size f = (\<forall>ys ys'. f ys = Some ys' \<longrightarrow> length ys' = length ys)"

definition clears :: "('b::zero list \<Rightarrow> 'b list option) \<Rightarrow> nat list \<Rightarrow> bool" where
  "clears f ts = (\<forall>ys ys'. f ys = Some ys' \<longrightarrow>
     length ys' = length ys \<and> (\<forall>t<length ys. ys' ! t = (if t \<in> set ts then 0 else ys ! t)))"

definition accumulates :: "('b::plus list \<Rightarrow> 'b list option) \<Rightarrow> (nat \<times> 'b) list \<Rightarrow> bool" where
  "accumulates f ops = (\<forall>ys ys'. f ys = Some ys' \<longrightarrow>
     length ys' = length ys \<and> (\<forall>t<length ys. ys' ! t = add_to (ys ! t) t ops))"

section \<open>Example inputs\<close>

text \<open>A run on one process of a debug build (the exchange leaves the vector as it
  is and the all-reduce returns the contribution), a 3 by 3 grid with one interior
  cell, and a matrix with one x-block built on the communicator \<open>Comm 1\<close>.\<close>

definition one_process :: "int env" where
  "one_process = \<lparr> DG_DEBUG = True, x_col = (\<lambda>c v. v), x_row = (\<lambda>c v. v),
                   MPI_Allreduce = (\<lambda>c t. t) \<rparr>"

definition grid3 :: "int list \<Rightarrow> int MPI_Vector" where
  "grid3 d = \<lparr> v_n = 1, v_Nx = 3, v_Ny = 3, v_Nz = 1, v_stride = 1, v_data = d \<rparr>"

definition dx3 :: "int MPI_Matrix" where
  "dx3 = (MPI_Matrix1 PER (Comm 1) 1) \<lparr> dataX := [[2]], offset := [1] \<rparr>"

text \<open>Runs over doubles: a group of one process; one process of a group of two, where
  \<^verbatim>\<open>MPI_SUM\<close> adds the partial sum \<open>other\<close> of the second process to the contribution; a
  grid of three rows of \<open>cols\<close> cells whose middle row is interior; a vector of one
  row.\<close>

definition group_of_one :: "'a env" where
  "group_of_one = \<lparr> DG_DEBUG = True, x_col = (\<lambda>c v. v), x_row = (\<lambda>c v. v),
                    MPI_Allreduce = (\<lambda>c t. t) \<rparr>"

definition one_of_two :: "'a::plus \<Rightarrow> 'a env" where
  "one_of_two other = \<lparr> DG_DEBUG = True, x_col = (\<lambda>c v. v), x_row = (\<lambda>c v. v),
                        MPI_Allreduce = (\<lambda>c t. t + other) \<rparr>"

definition row_grid :: "nat \<Rightarrow> 'a list \<Rightarrow> 'a MPI_Vector" where
  "row_grid cols d = \<lparr> v_n = 1, v_Nx = cols, v_Ny = 3, v_Nz = 1, v_stride = 1, v_data = d \<rparr>"

definition line :: "nat \<Rightarrow> 'a list \<Rightarrow> 'a MPI_Vector" where
  "line s d = \<lparr> v_n = 1, v_Nx = length d, v_Ny = 1, v_Nz = 1, v_stride = s, v_data = d \<rparr>"

text \<open>A matrix built with no block at all to which one y-block is added afterwards,
  through the reference that \<^verbatim>\<open>dataY()\<close> returns.\<close>

definition dy_only :: "int MPI_Matrix" where
  "dy_only = (MPI_Matrix1 PER (Comm 1) 0) \<lparr> dataY := [[3]] \<rparr>"

text \<open>A 4 by 4 grid with four interior cells (entries 5, 6, 9, 10), and a matrix with
  one x-block and both boundary tables: the x-table has two rows for the block row
  0 (entries 5 and 9), the y-table one row for the block row 0 (entries 5 and 6).\<close>

definition grid4 :: "int list \<Rightarrow> int MPI_Vector" where
  "grid4 d = \<lparr> v_n = 1, v_Nx = 4, v_Ny = 4, v_Nz = 1, v_stride = 1, v_data = d \<rparr>"

definition dx4_edges :: "int MPI_Matrix" where
  "dx4_edges = (MPI_Matrix1 PER (Comm 1) 1)
     \<lparr> dataX := [[2]], offset := [1],
       xterm := \<lparr> bt_data = [[3], [4]], bt_row = [0, 0], bt_col = [1, 2] \<rparr>,
       yterm := \<lparr> bt_data = [[5]], bt_row = [0], bt_col = [1] \<rparr> \<rparr>"

section \<open>Loops\<close>

lemma for_loop_append:
  "for_loop (xs @ ys) body s =
     (case for_loop xs body s of None \<Rightarrow> None | Some s' \<Rightarrow> for_loop ys body s')"
  by (induction xs arbitrary: s) (auto split: option.splits)

lemma for_loop_cong:
  "(\<And>i s. i \<in> set xs \<Longrightarrow> f i s = g i s) \<Longrightarrow> for_loop xs f s = for_loop xs g s"
  by (induction xs arbitrary: s) (auto split: option.splits)

lemma zero_loop_prefix:
  "k \<le> length yd \<Longrightarrow>
   for_loop [0..<k] (\<lambda>i yd. write_at yd i (0::'a::zero)) yd = Some (replicate k 0 @ drop k yd)"
proof (induction k)
  case 0
  then show ?case by simp
next
  case (Suc k)
  then have k: "k < length yd" by simp
  have d: "drop k yd = yd ! k # drop (Suc k) yd"
    using k by (simp add: Cons_nth_drop_Suc)
  have "(replicate k (0::'a) @ drop k yd)[k := 0] = replicate k 0 @ (0 # drop (Suc k) yd)"
    by (simp add: list_update_append d)
  also have "\<dots> = replicate (Suc k) 0 @ drop (Suc k) yd"
    by (simp add: replicate_app_Cons_same)
  finally have u: "(replicate k (0::'a) @ drop k yd)[k := 0] = replicate (Suc k) 0 @ drop (Suc k) yd" .
  have "for_loop [0..<Suc k] (\<lambda>i yd. write_at yd i (0::'a)) yd
        = write_at (replicate k 0 @ drop k yd) k 0"
    using Suc k by (simp add: for_loop_append split: option.splits)
  also have "\<dots> = Some ((replicate k (0::'a) @ drop k yd)[k := 0])"
    using k by (simp add: write_at_def)
  finally show ?case using u by simp
qed

lemma zero_loop:
  "n = length yd \<Longrightarrow>
   for_loop [0..<n] (\<lambda>i yd. write_at yd i (0::'a::zero)) yd = Some (replicate n 0)"
  using zero_loop_prefix [of n yd] by simp

section \<open>The output of \<^verbatim>\<open>symv\<close> and the prior contents of \<open>y\<close>\<close>

lemma symv_stencil_prior:
  "length d = length (v_data y) \<Longrightarrow> symv_stencil e M x (y\<lparr>v_data := d\<rparr>) = symv_stencil e M x y"
  by (simp add: symv_stencil_def zero_loop)

text \<open>
  C10. \<^verbatim>\<open>MPI_Matrix::symv\<close> zeroes the whole of \<^verbatim>\<open>y.data()\<close> before it accumulates
  anything: replacing the contents of \<open>y\<close> by any other contents of the same size
  changes nothing of what the call returns (the exchanged \<open>x\<close>, the final \<open>y\<close>, the
  MPI calls made), nor whether it has a defined result.
\<close>

theorem symv_ignores_prior_y:
  "length d = length (v_data y) \<Longrightarrow> symv e M x (y\<lparr>v_data := d\<rparr>) = symv e M x y"
  by (simp add: symv_def symv_stencil_prior)

theorem symv_ignores_prior_y_witness:
  "symv one_process dx3 (grid3 [1, 2, 3, 4, 5, 6, 7, 8, 9])
        ((grid3 [0, 0, 0, 0, 0, 0, 0, 0, 0])\<lparr>v_data := [7, 7, 7, 7, 7, 7, 7, 7, 7]\<rparr>)
   = symv one_process dx3 (grid3 [1, 2, 3, 4, 5, 6, 7, 8, 9]) (grid3 [0, 0, 0, 0, 0, 0, 0, 0, 0])
   \<and> symv one_process dx3 (grid3 [1, 2, 3, 4, 5, 6, 7, 8, 9]) (grid3 [0, 0, 0, 0, 0, 0, 0, 0, 0])
     = Some (grid3 [1, 2, 3, 4, 5, 6, 7, 8, 9], grid3 [0, 0, 0, 0, 12, 0, 0, 0, 0],
             [Comm_rank (Comm 1), X_col (Comm 1)])"
proof -
  have l: "length [7, 7, 7, 7, 7, 7, 7, 7, 7::int] = length (v_data (grid3 [0, 0, 0, 0, 0, 0, 0, 0, 0]))"
    by (simp add: grid3_def)
  have v: "symv one_process dx3 (grid3 [1, 2, 3, 4, 5, 6, 7, 8, 9]) (grid3 [0, 0, 0, 0, 0, 0, 0, 0, 0])
     = Some (grid3 [1, 2, 3, 4, 5, 6, 7, 8, 9], grid3 [0, 0, 0, 0, 12, 0, 0, 0, 0],
             [Comm_rank (Comm 1), X_col (Comm 1)])"
    by code_simp
  show ?thesis using symv_ignores_prior_y [OF l] v by simp
qed

section \<open>Ghost exchange and communicators\<close>

lemma symv_flags_prefix:
  "n \<le> length (dataX M) \<Longrightarrow> n \<le> length (dataY M) \<Longrightarrow>
   for_loop [0..<n] (\<lambda>k (updateX, updateY). do {
       dy \<leftarrow> read_at (dataY M) k;
       dx \<leftarrow> read_at (dataX M) k;
       Some (if dx \<noteq> [] then True else updateX, if dy \<noteq> [] then True else updateY) })
     (ux, uy)
   = Some (ux \<or> (\<exists>k<n. dataX M ! k \<noteq> []), uy \<or> (\<exists>k<n. dataY M ! k \<noteq> []))"
proof (induction n)
  case 0
  then show ?case by simp
next
  case (Suc n)
  then show ?case
    by (auto simp: for_loop_append read_at_def less_Suc_eq)
qed

lemma symv_flags_short:
  assumes "length (dataY M) < length (dataX M)"
  shows "symv_flags M = None"
proof -
  let ?body = "\<lambda>k (updateX, updateY). do {
       dy \<leftarrow> read_at (dataY M) k;
       dx \<leftarrow> read_at (dataX M) k;
       Some (if dx \<noteq> [] then True else updateX, if dy \<noteq> [] then True else updateY) }"
  have u: "[0..<length (dataX M)]
           = [0..<length (dataY M)] @ length (dataY M) # [Suc (length (dataY M))..<length (dataX M)]"
    using assms by (metis less_imp_le_nat upt_add_eq_append le_add_diff_inverse upt_conv_Cons zero_le)
  obtain f where f: "for_loop [0..<length (dataY M)] ?body (False, False) = Some f"
    using symv_flags_prefix [of "length (dataY M)" M False False] assms by simp
  have "?body (length (dataY M)) f = None"
    by (cases f) (simp add: read_at_def)
  then show ?thesis
    unfolding symv_flags_def u by (simp add: for_loop_append f)
qed

lemma symv_flags_take:
  assumes "length (dataX M) \<le> length (dataY M)"
  shows "symv_flags M = Some (\<exists>b\<in>set (dataX M). b \<noteq> [],
                              \<exists>b\<in>set (take (length (dataX M)) (dataY M)). b \<noteq> [])"
proof -
  have "symv_flags M = Some (False \<or> (\<exists>k<length (dataX M). dataX M ! k \<noteq> []),
                             False \<or> (\<exists>k<length (dataX M). dataY M ! k \<noteq> []))"
    unfolding symv_flags_def using assms by (intro symv_flags_prefix) simp_all
  moreover have "(\<exists>k<length (dataX M). dataX M ! k \<noteq> []) = (\<exists>b\<in>set (dataX M). b \<noteq> [])"
    by (metis in_set_conv_nth)
  moreover have "(\<exists>k<length (dataX M). dataY M ! k \<noteq> [])
                 = (\<exists>b\<in>set (take (length (dataX M)) (dataY M)). b \<noteq> [])"
  proof
    assume "\<exists>k<length (dataX M). dataY M ! k \<noteq> []"
    then obtain k where k: "k < length (dataX M)" "dataY M ! k \<noteq> []" by blast
    then have "take (length (dataX M)) (dataY M) ! k \<in> set (take (length (dataX M)) (dataY M))"
      using assms by (intro nth_mem) simp
    with k show "\<exists>b\<in>set (take (length (dataX M)) (dataY M)). b \<noteq> []"
      by (auto simp: nth_take)
  next
    assume "\<exists>b\<in>set (take (length (dataX M)) (dataY M)). b \<noteq> []"
    then obtain k where "k < length (take (length (dataX M)) (dataY M))"
      "take (length (dataX M)) (dataY M) ! k \<noteq> []"
      by (metis in_set_conv_nth)
    then show "\<exists>k<length (dataX M). dataY M ! k \<noteq> []"
      by (intro exI [of _ k]) simp
  qed
  ultimately show ?thesis by simp
qed

lemma symv_exchange_take:
  assumes "length (dataX M) \<le> length (dataY M)"
  shows "symv_exchange e M x = Some
     ((if \<exists>b\<in>set (take (length (dataX M)) (dataY M)). b \<noteq> [] then x_row e (communicator M) else (\<lambda>v. v))
        ((if \<exists>b\<in>set (dataX M). b \<noteq> [] then x_col e (communicator M) else (\<lambda>v. v)) x),
      Comm_rank (communicator M)
        # (if \<exists>b\<in>set (dataX M). b \<noteq> [] then [X_col (communicator M)] else [])
        @ (if \<exists>b\<in>set (take (length (dataX M)) (dataY M)). b \<noteq> [] then [X_row (communicator M)] else []))"
  by (simp add: symv_exchange_def symv_flags_take [OF assms] Let_def)

lemma symv_exchange_short:
  "length (dataY M) < length (dataX M) \<Longrightarrow> symv_exchange e M x = None"
  by (simp add: symv_exchange_def symv_flags_short)

lemma symv_calls:
  assumes "symv e M x y = Some (x', y', calls)"
  shows "symv_exchange e M x = Some (x', calls)"
  using assms
  by (auto simp: symv_def symv_stencil_def split: Option.bind_splits prod.splits if_splits)

lemma symv_exchange_comm:
  assumes "symv_exchange e M x = Some (x', calls)"
  shows "\<forall>c\<in>set calls. comm_of c = communicator M"
  using assms
  by (auto simp: symv_exchange_def Let_def split: Option.bind_splits prod.splits if_splits)

text \<open>
  C3 (as amended). The flag loop of \<^verbatim>\<open>MPI_Matrix::symv\<close> visits the indices below
  \<^verbatim>\<open>dataX_.size()\<close> only. With \<^verbatim>\<open>dataY_\<close> at least as long as \<^verbatim>\<open>dataX_\<close> the first
  statements of \<^verbatim>\<open>symv\<close> always return, and whenever \<^verbatim>\<open>symv\<close> returns its MPI calls are,
  in this order: the rank query, then \<^verbatim>\<open>x.x_col(comm_)\<close> exactly when some block of
  \<^verbatim>\<open>dataX_\<close> is non-empty, then \<^verbatim>\<open>x.x_row(comm_)\<close> exactly when one of the first
  \<^verbatim>\<open>dataX_.size()\<close> blocks of \<^verbatim>\<open>dataY_\<close> is non-empty, and nothing else; the vector the
  stencil reads is \<open>x\<close> after exactly these exchanges. For two lists of one length,
  as both constructors build them, these are all the blocks of \<^verbatim>\<open>dataY_\<close>.
\<close>

theorem symv_exchange_iff_blocks:
  "(let c = communicator M;
        ux = (\<exists>b\<in>set (dataX M). b \<noteq> []);
        uy = (\<exists>b\<in>set (take (length (dataX M)) (dataY M)). b \<noteq> []);
        calls0 = Comm_rank c # (if ux then [X_col c] else []) @ (if uy then [X_row c] else []);
        x0 = (if uy then x_row e c else (\<lambda>v. v)) ((if ux then x_col e c else (\<lambda>v. v)) x)
    in (length (dataX M) \<le> length (dataY M) \<longrightarrow> symv_exchange e M x = Some (x0, calls0))
       \<and> (symv e M x y = Some (x', y', calls) \<longrightarrow> calls = calls0 \<and> x' = x0)
       \<and> (length (dataY M) = length (dataX M) \<longrightarrow> uy = (\<exists>b\<in>set (dataY M). b \<noteq> [])))"
proof -
  have a: "symv e M x y = Some (x', y', calls) \<Longrightarrow> symv_exchange e M x = Some (x', calls)"
    by (rule symv_calls)
  have b: "symv_exchange e M x = Some (x', calls) \<Longrightarrow> length (dataX M) \<le> length (dataY M)"
    using symv_exchange_short [of M e x] by (cases "length (dataX M) \<le> length (dataY M)") auto
  show ?thesis
    using a b symv_exchange_take [of M e x] by (auto simp: Let_def)
qed

theorem symv_exchange_iff_blocks_witness:
  "dataX (dx3\<lparr>dataY := [[], [3]]\<rparr>) = [[2]]
   \<and> take (length (dataX (dx3\<lparr>dataY := [[], [3]]\<rparr>))) (dataY (dx3\<lparr>dataY := [[], [3]]\<rparr>)) = [[]]
   \<and> symv one_process (dx3\<lparr>dataY := [[], [3]]\<rparr>)
        (grid3 [1, 2, 3, 4, 5, 6, 7, 8, 9]) (grid3 [0, 0, 0, 0, 0, 0, 0, 0, 0])
     = Some (grid3 [1, 2, 3, 4, 5, 6, 7, 8, 9], grid3 [0, 0, 0, 0, 12, 0, 0, 0, 0],
             [Comm_rank (Comm 1), X_col (Comm 1)])
   \<and> symv_exchange one_process (dx3\<lparr>dataY := [[], [3]]\<rparr>) (grid3 [1, 2, 3, 4, 5, 6, 7, 8, 9])
     = Some (grid3 [1, 2, 3, 4, 5, 6, 7, 8, 9], [Comm_rank (Comm 1), X_col (Comm 1)])"
proof -
  let ?M = "dx3\<lparr>dataY := [[], [3]]\<rparr>"
  let ?x = "grid3 [1, 2, 3, 4, 5, 6, 7, 8, 9]"
  have d: "dataX ?M = [[2]]" "dataY ?M = [[], [3]]" "communicator ?M = Comm 1"
    by (simp_all add: dx3_def MPI_Matrix1_def MPI_Matrix2_def)
  have v: "symv one_process ?M ?x (grid3 [0, 0, 0, 0, 0, 0, 0, 0, 0])
     = Some (?x, grid3 [0, 0, 0, 0, 12, 0, 0, 0, 0], [Comm_rank (Comm 1), X_col (Comm 1)])"
    by code_simp
  have c: "x_col one_process = (\<lambda>c v. v)"
    by (simp add: one_process_def)
  from symv_exchange_iff_blocks [of ?M one_process ?x "grid3 [0, 0, 0, 0, 0, 0, 0, 0, 0]"
      ?x "grid3 [0, 0, 0, 0, 12, 0, 0, 0, 0]" "[Comm_rank (Comm 1), X_col (Comm 1)]", unfolded Let_def]
  have "symv_exchange one_process ?M ?x = Some (?x, [Comm_rank (Comm 1), X_col (Comm 1)])"
    unfolding d by (simp add: c)
  with d v show ?thesis by simp
qed

theorem symv_skips_late_dataY_counterexample:
  "dataX dy_only = [] \<and> dataY dy_only = [[3]]
   \<and> symv one_process dy_only (grid3 [1, 2, 3, 4, 5, 6, 7, 8, 9]) (grid3 [7, 7, 7, 7, 7, 7, 7, 7, 7])
     = Some (grid3 [1, 2, 3, 4, 5, 6, 7, 8, 9], grid3 [0, 0, 0, 0, 0, 0, 0, 0, 0],
             [Comm_rank (Comm 1)])"
  by code_simp

text \<open>
  C8 (as amended). The weighted \<^verbatim>\<open>doDot\<close> of \<^verbatim>\<open>mpi_precon_blas.h\<close> merges the
  partial sums with one \<^verbatim>\<open>MPI_Allreduce\<close> over the global communicator
  \<^verbatim>\<open>MPI_COMM_WORLD\<close>, whatever its arguments are. \<^verbatim>\<open>MPI_Matrix::symv\<close> makes all its
  MPI calls on the communicator stored in the matrix, which is the one handed to
  the constructor.
\<close>

theorem doDot_world_symv_own_communicator:
  "(doDot e x m y = Some (v, calls) \<longrightarrow> calls = [Allreduce_sum MPI_COMM_WORLD])
   \<and> (symv e M u w = Some (u', w', calls') \<longrightarrow> (\<forall>c\<in>set calls'. comm_of c = communicator M))
   \<and> communicator (MPI_Matrix2 bx by c number :: 'a MPI_Matrix) = c
   \<and> communicator (MPI_Matrix1 bx c number :: 'a MPI_Matrix) = c"
proof (intro conjI impI)
  assume "doDot e x m y = Some (v, calls)"
  then show "calls = [Allreduce_sum MPI_COMM_WORLD]"
    by (auto simp: doDot_def split: Option.bind_splits)
next
  assume "symv e M u w = Some (u', w', calls')"
  then show "\<forall>c\<in>set calls'. comm_of c = communicator M"
    using symv_calls symv_exchange_comm by blast
qed (simp_all add: MPI_Matrix1_def MPI_Matrix2_def)

theorem doDot_world_symv_own_communicator_witness:
  "doDot one_process (grid3 [1, 2, 3, 4, 5, 6, 7, 8, 9]) \<lparr> p_data = [5] \<rparr>
         (grid3 [1, 2, 3, 4, 5, 6, 7, 8, 9]) = Some (125, [Allreduce_sum MPI_COMM_WORLD])
   \<and> symv one_process dx3 (grid3 [1, 2, 3, 4, 5, 6, 7, 8, 9]) (grid3 [0, 0, 0, 0, 0, 0, 0, 0, 0])
     = Some (grid3 [1, 2, 3, 4, 5, 6, 7, 8, 9], grid3 [0, 0, 0, 0, 12, 0, 0, 0, 0],
             [Comm_rank (Comm 1), X_col (Comm 1)])
   \<and> communicator dx3 = Comm 1
   \<and> list_all (\<lambda>c. comm_of c = communicator dx3) [Comm_rank (Comm 1), X_col (Comm 1)]"
proof -
  have d: "doDot one_process (grid3 [1, 2, 3, 4, 5, 6, 7, 8, 9]) \<lparr> p_data = [5] \<rparr>
         (grid3 [1, 2, 3, 4, 5, 6, 7, 8, 9]) = Some (125, [Allreduce_sum MPI_COMM_WORLD])"
    by code_simp
  have v: "symv one_process dx3 (grid3 [1, 2, 3, 4, 5, 6, 7, 8, 9]) (grid3 [0, 0, 0, 0, 0, 0, 0, 0, 0])
     = Some (grid3 [1, 2, 3, 4, 5, 6, 7, 8, 9], grid3 [0, 0, 0, 0, 12, 0, 0, 0, 0],
             [Comm_rank (Comm 1), X_col (Comm 1)])"
    by code_simp
  have c: "communicator dx3 = Comm 1"
    by (simp add: dx3_def MPI_Matrix1_def MPI_Matrix2_def)
  from doDot_world_symv_own_communicator
         [where e = one_process and x = "grid3 [1, 2, 3, 4, 5, 6, 7, 8, 9]"
            and m = "\<lparr> p_data = [5] \<rparr>" and y = "grid3 [1, 2, 3, 4, 5, 6, 7, 8, 9]"
            and v = 125 and calls = "[Allreduce_sum MPI_COMM_WORLD]" and M = dx3
            and u = "grid3 [1, 2, 3, 4, 5, 6, 7, 8, 9]" and w = "grid3 [0, 0, 0, 0, 0, 0, 0, 0, 0]"
            and u' = "grid3 [1, 2, 3, 4, 5, 6, 7, 8, 9]" and w' = "grid3 [0, 0, 0, 0, 12, 0, 0, 0, 0]"
            and calls' = "[Comm_rank (Comm 1), X_col (Comm 1)]"]
  have "\<forall>c\<in>set [Comm_rank (Comm 1), X_col (Comm 1)]. comm_of c = communicator dx3"
    using d v by blast
  then show ?thesis using d v c by (simp add: list_all_iff)
qed

theorem doDot_merges_over_world_counterexample:
  "doDot one_process (grid3 [1, 2, 3, 4, 5, 6, 7, 8, 9]) \<lparr> p_data = [5] \<rparr>
         (grid3 [1, 2, 3, 4, 5, 6, 7, 8, 9]) = Some (125, [Allreduce_sum MPI_COMM_WORLD])"
  by code_simp

text \<open>
  C5 (the code departs from it). The norm form \<^verbatim>\<open>doDot(m, x)\<close> of
  \<^verbatim>\<open>mpi_precon_blas.h\<close> calls \<^verbatim>\<open>doDot(x, m, x)\<close> and drops the result: the function
  ends without a \<^verbatim>\<open>return\<close>. On the 3 by 3 grid below the weighted product of \<open>x\<close>
  with itself is \<open>5 * 5 * 5 = 125\<close>, and the norm form yields no value.
\<close>

theorem doDot1_drops_result:
  "doDot one_process (grid3 [1, 2, 3, 4, 5, 6, 7, 8, 9]) \<lparr> p_data = [5] \<rparr>
         (grid3 [1, 2, 3, 4, 5, 6, 7, 8, 9]) = Some (125, [Allreduce_sum MPI_COMM_WORLD])
   \<and> doDot1 one_process \<lparr> p_data = [5] \<rparr> (grid3 [1, 2, 3, 4, 5, 6, 7, 8, 9]) = None"
  by code_simp

section \<open>The weighted product reads interior entries only\<close>

lemma concat_map_mem: "a \<in> set xs \<Longrightarrow> y \<in> set (f a) \<Longrightarrow> y \<in> set (concat (map f xs))"
  by auto

lemma interior_mem:
  "k < v_Nz x \<Longrightarrow> 1 \<le> i \<Longrightarrow> i < u32 (int (v_Ny x) - 1) \<Longrightarrow> 1 \<le> j \<Longrightarrow> j < u32 (int (v_Nx x) - 1)
   \<Longrightarrow> l < v_stride x \<Longrightarrow> dot_index x k i j l \<in> set (interior x)"
  unfolding interior_def
  apply (rule concat_map_mem [of k], simp)
  apply (rule concat_map_mem [of i], simp)
  apply (rule concat_map_mem [of j], simp)
  apply simp
  done

lemma doDot_local_agree:
  assumes "v_Nz x' = v_Nz x" "v_Ny x' = v_Ny x" "v_Nx x' = v_Nx x" "v_stride x' = v_stride x"
    and "length (v_data x') = length (v_data x)" "length (v_data y') = length (v_data y)"
    and "\<forall>I\<in>set (interior x). v_data x' ! I = v_data x ! I \<and> v_data y' ! I = v_data y ! I"
  shows "doDot_local x' m y' = doDot_local x m y"
proof -
  have ix: "dot_index x' = dot_index x"
    using assms(1-4) by (simp add: dot_index_def fun_eq_iff)
  have body: "read_at (v_data x') (dot_index x k i j l) = read_at (v_data x) (dot_index x k i j l)
            \<and> read_at (v_data y') (dot_index x k i j l) = read_at (v_data y) (dot_index x k i j l)"
    if "k \<in> set [0..<v_Nz x]" "i \<in> set [1..<u32 (int (v_Ny x) - 1)]"
       "j \<in> set [1..<u32 (int (v_Nx x) - 1)]" "l \<in> set [0..<v_stride x]" for k i j l
  proof -
    have "dot_index x k i j l \<in> set (interior x)"
      using that by (intro interior_mem) simp_all
    then have "v_data x' ! dot_index x k i j l = v_data x ! dot_index x k i j l"
      and "v_data y' ! dot_index x k i j l = v_data y ! dot_index x k i j l"
      using assms(7) by blast+
    then show ?thesis using assms(5,6) by (simp add: read_at_def)
  qed
  show ?thesis
    unfolding doDot_local_def assms(1-4) ix
    apply (rule for_loop_cong)
    apply (rule for_loop_cong)
    apply (rule for_loop_cong)
    apply (rule for_loop_cong)
    apply (simp add: body)
    done
qed


text \<open>
  C9. The distributed \<^verbatim>\<open>doDot(x, m, y)\<close> reads \<open>x\<close> and \<open>y\<close> only at the entries of
  \<open>interior x\<close> (rows \<open>1 .. Ny-2\<close>, columns \<open>1 .. Nx-2\<close> of each plane): two pairs of
  vectors of the same shape that agree there give the same call, value and MPI
  calls alike, whatever their first and last rows and columns hold.
\<close>

theorem doDot_reads_interior_only:
  assumes "v_Nz x' = v_Nz x" "v_Ny x' = v_Ny x" "v_Nx x' = v_Nx x" "v_stride x' = v_stride x"
    and "length (v_data x') = length (v_data x)" "length (v_data y') = length (v_data y)"
    and "\<forall>I\<in>set (interior x). v_data x' ! I = v_data x ! I \<and> v_data y' ! I = v_data y ! I"
  shows "doDot e x' m y' = doDot e x m y"
  using doDot_local_agree [OF assms] assms(4-6) by (simp add: doDot_def)

theorem doDot_reads_interior_only_witness:
  "interior (grid3 [1, 2, 3, 4, 5, 6, 7, 8, 9]) = [4]
   \<and> doDot one_process (grid3 [0, 0, 0, 0, 5, 0, 0, 0, 0]) \<lparr> p_data = [5] \<rparr>
         (grid3 [7, 7, 7, 7, 5, 7, 7, 7, 7])
     = doDot one_process (grid3 [1, 2, 3, 4, 5, 6, 7, 8, 9]) \<lparr> p_data = [5] \<rparr>
         (grid3 [1, 2, 3, 4, 5, 6, 7, 8, 9])
   \<and> doDot one_process (grid3 [1, 2, 3, 4, 5, 6, 7, 8, 9]) \<lparr> p_data = [5] \<rparr>
         (grid3 [1, 2, 3, 4, 5, 6, 7, 8, 9]) = Some (125, [Allreduce_sum MPI_COMM_WORLD])"
proof -
  have i: "interior (grid3 [1, 2, 3, 4, 5, 6, 7, 8, 9]) = [4]"
    by code_simp
  have a: "\<forall>I\<in>set (interior (grid3 [1, 2, 3, 4, 5, 6, 7, 8, 9])).
             v_data (grid3 [0, 0, 0, 0, 5, 0, 0, 0, 0]) ! I = v_data (grid3 [1, 2, 3, 4, 5, 6, 7, 8, 9]) ! I
           \<and> v_data (grid3 [7, 7, 7, 7, 5, 7, 7, 7, 7]) ! I = v_data (grid3 [1, 2, 3, 4, 5, 6, 7, 8, 9]) ! I"
    unfolding i by (simp add: grid3_def)
  have v: "doDot one_process (grid3 [1, 2, 3, 4, 5, 6, 7, 8, 9]) \<lparr> p_data = [5] \<rparr>
         (grid3 [1, 2, 3, 4, 5, 6, 7, 8, 9]) = Some (125, [Allreduce_sum MPI_COMM_WORLD])"
    by code_simp
  have "doDot one_process (grid3 [0, 0, 0, 0, 5, 0, 0, 0, 0]) \<lparr> p_data = [5] \<rparr>
         (grid3 [7, 7, 7, 7, 5, 7, 7, 7, 7])
     = doDot one_process (grid3 [1, 2, 3, 4, 5, 6, 7, 8, 9]) \<lparr> p_data = [5] \<rparr>
         (grid3 [1, 2, 3, 4, 5, 6, 7, 8, 9])"
    by (rule doDot_reads_interior_only [OF _ _ _ _ _ _ a]) (simp_all add: grid3_def)
  with i v show ?thesis by simp
qed

section \<open>Diagonal weighting and the last statement of \<^verbatim>\<open>symv\<close>\<close>

lemma update_prefix:
  assumes "k < length yd"
  shows "(map g [0..<k] @ drop k yd)[k := g k] = map g [0..<Suc k] @ drop (Suc k) yd"
proof -
  have d: "drop k yd = yd ! k # drop (Suc k) yd"
    using assms by (simp add: Cons_nth_drop_Suc)
  show ?thesis by (simp add: list_update_append d)
qed

lemma pointwise_loop_prefix:
  assumes step: "\<And>i zs. i < n \<Longrightarrow> length zs = length yd \<Longrightarrow> zs ! i = yd ! i
                 \<Longrightarrow> body i zs = Some (zs[i := g i])"
    and "k \<le> n" "n \<le> length yd"
  shows "for_loop [0..<k] body yd = Some (map g [0..<k] @ drop k yd)"
  using assms(2)
proof (induction k)
  case 0
  then show ?case by simp
next
  case (Suc k)
  let ?s = "map g [0..<k] @ drop k yd"
  from Suc assms(3) have k: "k < length yd" "k < n" by simp_all
  have "length ?s = length yd" using k by simp
  moreover have "?s ! k = yd ! k" using k by (simp add: nth_append)
  ultimately have b: "body k ?s = Some (?s[k := g k])"
    using k step [of k ?s] by blast
  have a: "for_loop [0..<Suc k] body yd = body k ?s"
    using Suc k by (simp add: for_loop_append split: option.splits)
  show ?case
    unfolding a b update_prefix [OF k(1)] ..
qed

lemma pointwise_loop:
  assumes "\<And>i zs. i < length yd \<Longrightarrow> length zs = length yd \<Longrightarrow> zs ! i = yd ! i
                 \<Longrightarrow> body i zs = Some (zs[i := g i])"
  shows "for_loop [0..<length yd] body yd = Some (map g [0..<length yd])"
  using pointwise_loop_prefix [of "length yd" yd body g "length yd"] assms by simp

lemma weight_at_Some:
  "p_data m \<noteq> [] \<Longrightarrow> weight_at m i = Some (p_data m ! (i mod length (p_data m)))"
  by (simp add: weight_at_def read_at_def)

lemma doSymv_inplace_loop:
  assumes "p_data m \<noteq> []"
  shows "for_loop [0..<length yd] (\<lambda>i yd. do {
             w \<leftarrow> weight_at m i;
             xv \<leftarrow> read_at yd i;
             write_at yd i (w * xv) }) yd
         = Some (map (\<lambda>i. p_data m ! (i mod length (p_data m)) * yd ! i) [0..<length yd])"
  by (rule pointwise_loop) (simp add: weight_at_Some [OF assms] read_at_def write_at_def)

lemma doSymv_inplace_eq:
  assumes "p_data m \<noteq> []"
  shows "doSymv_inplace m y =
     Some (y\<lparr>v_data := map (\<lambda>i. p_data m ! (i mod length (p_data m)) * v_data y ! i)
                           [0..<length (v_data y)]\<rparr>)"
  using assms by (simp add: doSymv_inplace_def doSymv_inplace_loop)

text \<open>
  C7. \<^verbatim>\<open>MPI_Matrix::symv\<close> is the statements before its last one (exchange, zeroing,
  block loops, both boundary tables; their result is \<open>y3\<close>) followed by the
  preconditioner, which runs exactly when \<^verbatim>\<open>p_.data\<close> is non-empty. With \<^verbatim>\<open>p_.data\<close>
  empty the final \<open>y\<close> is \<open>y3\<close> itself. Otherwise every entry \<open>i\<close> of it is
  \<^verbatim>\<open>p_.data[i % stride] * y3[i]\<close> with \<^verbatim>\<open>stride = p_.data.size()\<close>, and nothing else of
  \<open>y3\<close>, of the exchanged \<open>x\<close> or of the MPI calls changes. The scale itself is the
  one modelled from the spec (\<open>doSymv_inplace\<close>): the overload that \<^verbatim>\<open>symv\<close> calls is
  not in the sources.
\<close>

theorem symv_precond_last:
  "symv e M x y =
     (case symv_stencil e M x y of
        None \<Rightarrow> None
      | Some (x', y3, calls) \<Rightarrow>
          Some (x',
                (if p_data (precond M) = [] then y3
                 else y3\<lparr>v_data := map (\<lambda>i. p_data (precond M) ! (i mod length (p_data (precond M)))
                                             * v_data y3 ! i) [0..<length (v_data y3)]\<rparr>),
                calls))"
  by (auto simp: symv_def doSymv_inplace_eq split: option.splits prod.splits)

theorem symv_precond_last_witness:
  "symv_stencil one_process (dx3\<lparr>precond := \<lparr> p_data = [10] \<rparr>\<rparr>)
        (grid3 [1, 2, 3, 4, 5, 6, 7, 8, 9]) (grid3 [0, 0, 0, 0, 0, 0, 0, 0, 0])
     = Some (grid3 [1, 2, 3, 4, 5, 6, 7, 8, 9], grid3 [0, 0, 0, 0, 12, 0, 0, 0, 0],
             [Comm_rank (Comm 1), X_col (Comm 1)])
   \<and> symv one_process (dx3\<lparr>precond := \<lparr> p_data = [10] \<rparr>\<rparr>)
        (grid3 [1, 2, 3, 4, 5, 6, 7, 8, 9]) (grid3 [0, 0, 0, 0, 0, 0, 0, 0, 0])
     = Some (grid3 [1, 2, 3, 4, 5, 6, 7, 8, 9], grid3 [0, 0, 0, 0, 120, 0, 0, 0, 0],
             [Comm_rank (Comm 1), X_col (Comm 1)])
   \<and> symv_stencil one_process dx3
        (grid3 [1, 2, 3, 4, 5, 6, 7, 8, 9]) (grid3 [0, 0, 0, 0, 0, 0, 0, 0, 0])
     = Some (grid3 [1, 2, 3, 4, 5, 6, 7, 8, 9], grid3 [0, 0, 0, 0, 12, 0, 0, 0, 0],
             [Comm_rank (Comm 1), X_col (Comm 1)])
   \<and> symv one_process dx3
        (grid3 [1, 2, 3, 4, 5, 6, 7, 8, 9]) (grid3 [0, 0, 0, 0, 0, 0, 0, 0, 0])
     = Some (grid3 [1, 2, 3, 4, 5, 6, 7, 8, 9], grid3 [0, 0, 0, 0, 12, 0, 0, 0, 0],
             [Comm_rank (Comm 1), X_col (Comm 1)])"
proof -
  let ?M = "dx3\<lparr>precond := \<lparr> p_data = [10] \<rparr>\<rparr>"
  let ?x = "grid3 [1, 2, 3, 4, 5, 6, 7, 8, 9]"
  let ?y = "grid3 [0, 0, 0, 0, 0, 0, 0, 0, 0]"
  have s: "symv_stencil one_process ?M ?x ?y
     = Some (?x, grid3 [0, 0, 0, 0, 12, 0, 0, 0, 0], [Comm_rank (Comm 1), X_col (Comm 1)])"
    "symv_stencil one_process dx3 ?x ?y
     = Some (?x, grid3 [0, 0, 0, 0, 12, 0, 0, 0, 0], [Comm_rank (Comm 1), X_col (Comm 1)])"
    by code_simp+
  have p: "p_data (precond ?M) = [10]" "p_data (precond dx3) = []"
    by (simp_all add: dx3_def MPI_Matrix1_def MPI_Matrix2_def)
  have "symv one_process ?M ?x ?y
     = Some (?x, grid3 [0, 0, 0, 0, 120, 0, 0, 0, 0], [Comm_rank (Comm 1), X_col (Comm 1)])"
    unfolding symv_precond_last [of one_process ?M ?x ?y] s p
    by (simp add: grid3_def upt_conv_Cons)
  moreover have "symv one_process dx3 ?x ?y
     = Some (?x, grid3 [0, 0, 0, 0, 12, 0, 0, 0, 0], [Comm_rank (Comm 1), X_col (Comm 1)])"
    unfolding symv_precond_last [of one_process dx3 ?x ?y] s p by simp
  ultimately show ?thesis using s by simp
qed

lemma assert_True [simp]: "assert dbg True = Some ()"
  by (simp add: assert_def)

lemma precon_asserts_ok:
  assumes "p_data m \<noteq> []" "length (v_data x) = length (v_data y)"
    "length (v_data x) mod length (p_data m) = 0" "dbg \<longrightarrow> v_stride x = length (p_data m)"
  shows "precon_asserts dbg m x y = Some ()"
  using assms by (cases dbg) (simp_all add: precon_asserts_def assert_def Suc_le_eq)

lemma doSymv5_loop:
  assumes "p_data m \<noteq> []" "length xd = length yd"
  shows "for_loop [0..<length yd] (\<lambda>i yd. do {
               w \<leftarrow> weight_at m i;
               xv \<leftarrow> read_at xd i;
               yv \<leftarrow> read_at yd i;
               write_at yd i (alpha * w * xv + beta * yv) }) yd
         = Some (map (\<lambda>i. alpha * p_data m ! (i mod length (p_data m)) * xd ! i + beta * yd ! i)
                     [0..<length yd])"
  by (rule pointwise_loop) (simp add: weight_at_Some [OF assms(1)] assms(2) read_at_def write_at_def)

lemma doAxpby_eq:
  assumes "length (v_data x) = length (v_data y)"
  shows "doAxpby a x b y
         = Some (y\<lparr>v_data := map (\<lambda>i. a * v_data x ! i + b * v_data y ! i) [0..<length (v_data y)]\<rparr>)"
proof -
  have "for_loop [0..<length (v_data y)] (\<lambda>i yd. do {
             xv \<leftarrow> read_at (v_data x) i;
             yv \<leftarrow> read_at yd i;
             write_at yd i (a * xv + b * yv) }) (v_data y)
        = Some (map (\<lambda>i. a * v_data x ! i + b * v_data y ! i) [0..<length (v_data y)])"
    by (rule pointwise_loop) (simp add: assms read_at_def write_at_def)
  then show ?thesis by (simp add: doAxpby_def assms)
qed

text \<open>
  C6 (as amended). For a weighting \<open>m\<close> with non-empty data of size \<open>s\<close> and vectors \<open>x\<close>,
  \<open>y\<close> of one size that is a multiple of \<open>s\<close> (in a \<^verbatim>\<open>DG_DEBUG\<close> build the field
  \<^verbatim>\<open>x.stride\<close> must be \<open>s\<close> too: the code asserts it), the call
  \<^verbatim>\<open>doSymv(alpha, m, x, beta, y)\<close> with \<open>alpha \<noteq> 0\<close> returns and leaves
  \<open>y[i] = alpha * m.data[i mod s] * x[i] + beta * y_old[i]\<close> at every entry, computed in
  this order in the arithmetic of the value type, whatever it is. With \<open>alpha = 0\<close> the
  loop is skipped: for \<open>beta = 1\<close> the call returns \<open>y\<close> as it was, otherwise it is the
  call \<^verbatim>\<open>doAxpby(0., x, beta, y)\<close>. No law of the arithmetic is assumed.
\<close>

theorem doSymv5_formula:
  fixes alpha beta :: "'a::{zero,one,plus,times}"
  assumes "p_data m \<noteq> []" "length (v_data x) = length (v_data y)"
    "length (v_data x) mod length (p_data m) = 0" "dbg \<longrightarrow> v_stride x = length (p_data m)"
  shows "(alpha \<noteq> 0 \<longrightarrow> doSymv5 dbg alpha m x beta y
            = Some (y\<lparr>v_data := map (\<lambda>i. alpha * p_data m ! (i mod length (p_data m)) * v_data x ! i
                                          + beta * v_data y ! i) [0..<length (v_data y)]\<rparr>))
       \<and> (alpha = 0 \<and> beta = 1 \<longrightarrow> doSymv5 dbg alpha m x beta y = Some y)
       \<and> (alpha = 0 \<and> beta \<noteq> 1 \<longrightarrow> doSymv5 dbg alpha m x beta y = doAxpby 0 x beta y)"
proof -
  have a: "assert dbg (length (v_data x) = length (v_data y)) = Some ()"
    using assms(2) by (simp add: assert_def)
  have "alpha \<noteq> 0 \<Longrightarrow> doSymv5 dbg alpha m x beta y
            = Some (y\<lparr>v_data := map (\<lambda>i. alpha * p_data m ! (i mod length (p_data m)) * v_data x ! i
                                          + beta * v_data y ! i) [0..<length (v_data y)]\<rparr>)"
    using doSymv5_loop [OF assms(1), of "v_data x" "v_data y" alpha beta] assms(2)
    by (simp add: doSymv5_def a precon_asserts_ok [OF assms])
  then show ?thesis
    by (simp add: doSymv5_def a)
qed

theorem doSymv5_formula_witness:
  "doSymv5 True (Finite 2) \<lparr> p_data = [Finite 5, 1, Finite 2] \<rparr>
        (line 3 [1, Finite 2, Finite 3, Finite 4, Finite 5, PInf]) (Finite 3)
        (line 3 [1, 1, 1, 1, 1, 1])
     = Some (line 3 [Finite 13, Finite 7, Finite 15, Finite 43, Finite 13, PInf])
   \<and> doSymv5 True 0 \<lparr> p_data = [Finite 5, 1, Finite 2] \<rparr>
        (line 3 [1, Finite 2, Finite 3, Finite 4, Finite 5, PInf]) 1
        (line 3 [1, 1, 1, 1, 1, 1])
     = Some (line 3 [1, 1, 1, 1, 1, 1])"
proof -
  let ?m = "\<lparr> p_data = [Finite 5, 1, Finite 2] \<rparr>"
  let ?x = "line 3 [1, Finite 2, Finite 3, Finite 4, Finite 5, PInf]"
  let ?y = "line 3 [1, 1, 1, 1, 1, 1 :: dbl]"
  have h: "p_data ?m \<noteq> []" "length (v_data ?x) = length (v_data ?y)"
    "length (v_data ?x) mod length (p_data ?m) = 0" "True \<longrightarrow> v_stride ?x = length (p_data ?m)"
    by (simp_all add: line_def)
  have n: "Finite 2 \<noteq> 0"
    by (simp add: zero_dbl_def)
  have m: "?y\<lparr>v_data := map (\<lambda>i. Finite 2 * p_data ?m ! (i mod length (p_data ?m)) * v_data ?x ! i
                                  + Finite 3 * v_data ?y ! i) [0..<length (v_data ?y)]\<rparr>
           = line 3 [Finite 13, Finite 7, Finite 15, Finite 43, Finite 13, PInf]"
    by code_simp
  have "doSymv5 True (Finite 2) ?m ?x (Finite 3) ?y
        = Some (line 3 [Finite 13, Finite 7, Finite 15, Finite 43, Finite 13, PInf])"
    using doSymv5_formula [OF h, of "Finite 2" "Finite 3"] n unfolding m by blast
  moreover have "doSymv5 True 0 ?m ?x 1 ?y = Some ?y"
    using doSymv5_formula [OF h, of 0 1] by blast
  ultimately show ?thesis by simp
qed

theorem doSymv5_skips_nan_counterexample:
  "doSymv5 True 0 \<lparr> p_data = [1] \<rparr> (line 1 [PInf]) 1 (line 1 [Finite 5]) = Some (line 1 [Finite 5])
   \<and> 0 * p_data \<lparr> p_data = [1] \<rparr> ! (0 mod 1) * v_data (line 1 [PInf]) ! 0
       + 1 * v_data (line 1 [Finite 5]) ! 0 = NaN"
  by code_simp

text \<open>The scale agrees with the two-tag \<^verbatim>\<open>doSymv(m, x, y)\<close> of the sources called with
  \<open>x\<close> and \<open>y\<close> the same vector, in a build without \<^verbatim>\<open>DG_DEBUG\<close>.\<close>

lemma doSymv_inplace_is_doSymv: "doSymv_inplace m y = doSymv False m y y"
proof (cases "p_data m = []")
  case True
  show ?thesis
  proof (cases "v_data y")
    case Nil
    then show ?thesis by (simp add: doSymv_inplace_def doSymv_def precon_asserts_def assert_def)
  next
    case (Cons a ys)
    then have "[0..<length (v_data y)] = 0 # [Suc 0..<length (v_data y)]"
      by (subst upt_rec) simp
    then show ?thesis using True
      by (simp add: doSymv_inplace_def doSymv_def weight_at_def precon_asserts_def assert_def)
  qed
next
  case False
  have "for_loop [0..<length (v_data y)] (\<lambda>i yd. do {
             w \<leftarrow> weight_at m i;
             xv \<leftarrow> read_at (v_data y) i;
             write_at yd i (w * xv) }) (v_data y)
        = Some (map (\<lambda>i. p_data m ! (i mod length (p_data m)) * v_data y ! i) [0..<length (v_data y)])"
    by (rule pointwise_loop) (simp add: weight_at_Some [OF False] read_at_def write_at_def)
  then show ?thesis
    by (simp add: doSymv_inplace_def doSymv_def doSymv_inplace_loop [OF False]
        precon_asserts_def assert_def)
qed

section \<open>Boundary terms overwrite\<close>

lemma add_to_append: "add_to a t (ops1 @ ops2) = add_to (add_to a t ops1) t ops2"
  by (simp add: add_to_def)

lemma add_to_Nil [simp]: "add_to a t [] = a"
  by (simp add: add_to_def)

lemma add_to_untargeted: "t \<notin> fst ` set ops \<Longrightarrow> add_to a t ops = a"
proof -
  assume "t \<notin> fst ` set ops"
  then have "filter (\<lambda>op. fst op = t) ops = []"
    by (auto simp: filter_empty_conv)
  then show ?thesis by (simp add: add_to_def)
qed

lemma keeps_size_for_loop:
  assumes "\<And>a. a \<in> set xs \<Longrightarrow> keeps_size (F a)"
  shows "keeps_size (for_loop xs F)"
  using assms
proof (induction xs)
  case Nil
  then show ?case by (simp add: keeps_size_def)
next
  case (Cons a xs)
  then have a: "keeps_size (F a)" and r: "keeps_size (for_loop xs F)"
    by simp_all
  show ?case
    unfolding keeps_size_def
  proof (intro allI impI)
    fix ys ys' assume "for_loop (a # xs) F ys = Some ys'"
    then obtain y1 where "F a ys = Some y1" "for_loop xs F y1 = Some ys'"
      by (auto split: option.splits)
    then show "length ys' = length ys"
      using a r by (simp add: keeps_size_def)
  qed
qed

lemma clears_for_loop:
  assumes "\<And>a. a \<in> set xs \<Longrightarrow> clears (F a) (T a)"
  shows "clears (for_loop xs F) (concat (map T xs))"
  using assms
proof (induction xs)
  case Nil
  then show ?case by (simp add: clears_def)
next
  case (Cons a xs)
  then have a: "clears (F a) (T a)" and r: "clears (for_loop xs F) (concat (map T xs))"
    by simp_all
  show ?case
    unfolding clears_def
  proof (intro allI impI)
    fix ys ys' assume "for_loop (a # xs) F ys = Some ys'"
    then obtain y1 where 1: "F a ys = Some y1" and 2: "for_loop xs F y1 = Some ys'"
      by (auto split: option.splits)
    from a 1 have l1: "length y1 = length ys"
      and v1: "\<forall>t<length ys. y1 ! t = (if t \<in> set (T a) then 0 else ys ! t)"
      by (simp_all add: clears_def)
    from r 2 have l2: "length ys' = length y1"
      and v2: "\<forall>t<length y1. ys' ! t = (if t \<in> set (concat (map T xs)) then 0 else y1 ! t)"
      by (simp_all add: clears_def)
    show "length ys' = length ys \<and>
       (\<forall>t<length ys. ys' ! t = (if t \<in> set (concat (map T (a # xs))) then 0 else ys ! t))"
      using l1 l2 v1 v2 by auto
  qed
qed

lemma accumulates_for_loop:
  assumes "\<And>a. a \<in> set xs \<Longrightarrow> accumulates (F a) (W a)"
  shows "accumulates (for_loop xs F) (concat (map W xs))"
  using assms
proof (induction xs)
  case Nil
  then show ?case by (simp add: accumulates_def)
next
  case (Cons a xs)
  then have a: "accumulates (F a) (W a)" and r: "accumulates (for_loop xs F) (concat (map W xs))"
    by simp_all
  show ?case
    unfolding accumulates_def
  proof (intro allI impI)
    fix ys ys' assume "for_loop (a # xs) F ys = Some ys'"
    then obtain y1 where 1: "F a ys = Some y1" and 2: "for_loop xs F y1 = Some ys'"
      by (auto split: option.splits)
    from a 1 have l1: "length y1 = length ys"
      and v1: "\<forall>t<length ys. y1 ! t = add_to (ys ! t) t (W a)"
      by (simp_all add: accumulates_def)
    from r 2 have l2: "length ys' = length y1"
      and v2: "\<forall>t<length y1. ys' ! t = add_to (y1 ! t) t (concat (map W xs))"
      by (simp_all add: accumulates_def)
    show "length ys' = length ys \<and>
       (\<forall>t<length ys. ys' ! t = add_to (ys ! t) t (concat (map W (a # xs))))"
      using l1 l2 v1 v2 by (simp add: add_to_append)
  qed
qed

lemma clears_write:
  "clears (\<lambda>yd. do { r \<leftarrow> read_at rs m; write_at yd (g r) (0::'a::zero) }) [g (rs ! m)]"
  by (auto simp: clears_def read_at_def write_at_def nth_list_update split: if_splits)

lemma accumulates_writeX:
  "accumulates (\<lambda>yd. do {
       r \<leftarrow> read_at rs m;
       c \<leftarrow> read_at cs m;
       d \<leftarrow> read_at ds e;
       a \<leftarrow> read_at xs (h c);
       b \<leftarrow> read_at yd (g r);
       write_at yd (g r) (b + d * a) }) [(g (rs ! m), ds ! e * xs ! h (cs ! m))]"
  by (auto simp: accumulates_def add_to_def read_at_def write_at_def nth_list_update
      split: if_splits)

lemma clears_for_loop_map:
  assumes "\<And>a. a \<in> set xs \<Longrightarrow> clears (F a) [w a]"
  shows "clears (for_loop xs F) (map w xs)"
  using clears_for_loop [of xs F "\<lambda>a. [w a]"] assms by simp

lemma accumulates_for_loop_map:
  assumes "\<And>a. a \<in> set xs \<Longrightarrow> accumulates (F a) [w a]"
  shows "accumulates (for_loop xs F) (map w xs)"
  using accumulates_for_loop [of xs F "\<lambda>a. [w a]"] assms by simp

lemma applyX_add_accumulates: "accumulates (applyX_add bt x) (productsX bt x)"
  unfolding applyX_add_def productsX_def
  by (intro accumulates_for_loop accumulates_for_loop_map accumulates_writeX)

lemma applyY_add_accumulates: "accumulates (applyY_add bt x) (productsY bt x)"
  unfolding applyY_add_def productsY_def
  by (intro accumulates_for_loop accumulates_for_loop_map accumulates_writeX)

lemma applyX_zero_clears:
  "clears (applyX_zero bt x) [idxX x (bt_row bt ! m) s i k l.
       m \<leftarrow> [0..<length (bt_data bt)], s \<leftarrow> [0..<v_Nz x],
       i \<leftarrow> [1..<u32 (int (v_Ny x) - 1)], k \<leftarrow> [0..<v_n x], l \<leftarrow> [0..<v_n x],
       q \<leftarrow> [0..<v_n x]]"
  unfolding applyX_zero_def
  by (intro clears_for_loop clears_for_loop_map clears_write)

lemma applyY_zero_clears:
  "clears (applyY_zero bt x) [idxY x (bt_row bt ! m) s k j l.
       m \<leftarrow> [0..<length (bt_data bt)], s \<leftarrow> [0..<v_Nz x],
       k \<leftarrow> [0..<v_n x], j \<leftarrow> [1..<u32 (int (v_Nx x) - 1)], l \<leftarrow> [0..<v_n x],
       p \<leftarrow> [0..<v_n x]]"
  unfolding applyY_zero_def
  by (intro clears_for_loop clears_for_loop_map clears_write)

lemma twice_set:
  "(\<Union>l\<in>{0..<n::nat}. (\<lambda>q. g l) ` {0..<n}) = g ` {0..<n}"
  by auto

lemma targetsX_set:
  "set [idxX x (bt_row bt ! m) s i k l.
       m \<leftarrow> [0..<length (bt_data bt)], s \<leftarrow> [0..<v_Nz x],
       i \<leftarrow> [1..<u32 (int (v_Ny x) - 1)], k \<leftarrow> [0..<v_n x], l \<leftarrow> [0..<v_n x],
       q \<leftarrow> [0..<v_n x]] = set (targetsX bt x)"
  unfolding targetsX_def by (simp add: twice_set image_UN)

lemma targetsY_set:
  "set [idxY x (bt_row bt ! m) s k j l.
       m \<leftarrow> [0..<length (bt_data bt)], s \<leftarrow> [0..<v_Nz x],
       k \<leftarrow> [0..<v_n x], j \<leftarrow> [1..<u32 (int (v_Nx x) - 1)], l \<leftarrow> [0..<v_n x],
       p \<leftarrow> [0..<v_n x]] = set (targetsY bt x)"
  unfolding targetsY_def by (simp add: twice_set)

lemma productsX_targets: "fst ` set (productsX bt x) \<subseteq> set (targetsX bt x)"
  unfolding productsX_def targetsX_def by (simp add: image_UN image_image) blast

lemma productsY_targets: "fst ` set (productsY bt x) \<subseteq> set (targetsY bt x)"
  unfolding productsY_def targetsY_def by (simp add: image_UN image_image) blast

lemma overwrite:
  assumes z: "clears fz ts" and a: "accumulates fa ops" and s: "fst ` set ops \<subseteq> set ts"
    and 1: "fz ys = Some y1" and 2: "fa y1 = Some y2"
  shows "length y2 = length ys
       \<and> (\<forall>t<length ys. y2 ! t = (if t \<in> set ts then add_to 0 t ops else ys ! t))"
proof -
  from z 1 have l1: "length y1 = length ys"
    and v1: "\<forall>t<length ys. y1 ! t = (if t \<in> set ts then 0 else ys ! t)"
    by (simp_all add: clears_def)
  from a 2 have l2: "length y2 = length y1"
    and v2: "\<forall>t<length y1. y2 ! t = add_to (y1 ! t) t ops"
    by (simp_all add: accumulates_def)
  have "y2 ! t = (if t \<in> set ts then add_to 0 t ops else ys ! t)" if "t < length ys" for t
  proof (cases "t \<in> set ts")
    case True
    then show ?thesis using v1 v2 l1 that by simp
  next
    case False
    then have "t \<notin> fst ` set ops" using s by blast
    then have "add_to (y1 ! t) t ops = y1 ! t" by (rule add_to_untargeted)
    then show ?thesis using v1 v2 l1 that False by simp
  qed
  then show ?thesis using l1 l2 by simp
qed

lemma applyX_value:
  assumes "applyX bt x y = Some y2"
  shows "length (v_data y2) = length (v_data y)
       \<and> (\<forall>t<length (v_data y). v_data y2 ! t =
            (if t \<in> set (targetsX bt x) then add_to 0 t (productsX bt x) else v_data y ! t))"
proof (cases "bt_data bt = []")
  case True
  then show ?thesis using assms by (simp add: applyX_def targetsX_def)
next
  case False
  with assms obtain y1 yd where 1: "applyX_zero bt x (v_data y) = Some y1"
    and 2: "applyX_add bt x y1 = Some yd" and 3: "y2 = y\<lparr>v_data := yd\<rparr>"
    by (auto simp: applyX_def split: Option.bind_splits)
  show ?thesis
    using overwrite [OF applyX_zero_clears applyX_add_accumulates _ 1 2] productsX_targets [of bt x]
    unfolding targetsX_set 3 by simp
qed

lemma applyY_value:
  assumes "applyY bt x y = Some y2"
  shows "length (v_data y2) = length (v_data y)
       \<and> (\<forall>t<length (v_data y). v_data y2 ! t =
            (if t \<in> set (targetsY bt x) then add_to 0 t (productsY bt x) else v_data y ! t))"
proof (cases "bt_data bt = []")
  case True
  then show ?thesis using assms by (simp add: applyY_def targetsY_def)
next
  case False
  with assms obtain y1 yd where 1: "applyY_zero bt x (v_data y) = Some y1"
    and 2: "applyY_add bt x y1 = Some yd" and 3: "y2 = y\<lparr>v_data := yd\<rparr>"
    by (auto simp: applyY_def split: Option.bind_splits)
  show ?thesis
    using overwrite [OF applyY_zero_clears applyY_add_accumulates _ 1 2] productsY_targets [of bt x]
    unfolding targetsY_set 3 by simp
qed

lemma keeps_size_write:
  "keeps_size (\<lambda>yd. do {
       d \<leftarrow> read_at ds e;
       off \<leftarrow> read_at os m;
       a \<leftarrow> read_at xs (h off);
       b \<leftarrow> read_at yd g;
       write_at yd g (b + d * a) })"
  by (auto simp: keeps_size_def read_at_def write_at_def split: if_splits)

lemma symv_X_keeps_size: "keeps_size (symv_X M x m)"
  unfolding symv_X_def by (intro keeps_size_for_loop keeps_size_write)

lemma symv_Y_keeps_size: "keeps_size (symv_Y M x m)"
  unfolding symv_Y_def by (intro keeps_size_for_loop keeps_size_write)

lemma symv_blocks_keeps_size: "keeps_size (symv_blocks M x)"
  unfolding symv_blocks_def
proof (rule keeps_size_for_loop)
  fix m
  show "keeps_size (\<lambda>yd. do {
       dx \<leftarrow> read_at (dataX M) m;
       y1 \<leftarrow> (if dx \<noteq> [] then symv_X M x m yd else Some yd);
       dy \<leftarrow> read_at (dataY M) m;
       if dy \<noteq> [] then symv_Y M x m y1 else Some y1 })"
    using symv_X_keeps_size [of M x m] symv_Y_keeps_size [of M x m]
    by (auto simp: keeps_size_def split: Option.bind_splits if_splits)
qed


text \<open>
  C4. Whenever \<^verbatim>\<open>symv\<close> returns, the vector \<open>y3\<close> that its boundary-correction step
  (\<^verbatim>\<open>xterm_.applyX\<close>, then \<^verbatim>\<open>yterm_.applyY\<close>) leaves is, entry by entry: at an entry
  targeted by a row of the y-table, the sum of the y-table's products for this entry,
  added to 0 in the order of the loops; at an entry targeted by a row of the x-table
  and by no row of the y-table, the sum of the x-table's products for it; at every
  other entry, the value \<open>y1\<close> that the block loops accumulated on the zeroed vector.
  So at a targeted entry what the block loops accumulated is discarded and the value
  is that of the boundary products alone (of the table applied last, where both
  tables target the entry: \<^verbatim>\<open>applyY\<close> overwrites what \<^verbatim>\<open>applyX\<close> left too). An empty
  table targets nothing. \<open>y3\<close> is what \<^verbatim>\<open>symv\<close> returns when no weighting is attached,
  and what it hands to the weighting otherwise.
\<close>

theorem symv_boundary_terms_overwrite:
  assumes "symv e M x y = Some (x', y', calls)"
  shows "\<exists>y1 y3. symv_blocks M x' (replicate (length (v_data y)) 0) = Some y1
      \<and> symv_stencil e M x y = Some (x', y3, calls)
      \<and> (if p_data (precond M) = [] then y' = y3 else doSymv_inplace (precond M) y3 = Some y')
      \<and> length (v_data y3) = length (v_data y)
      \<and> (\<forall>t<length (v_data y). v_data y3 ! t =
           (if t \<in> set (targetsY (yterm M) x') then add_to 0 t (productsY (yterm M) x')
            else if t \<in> set (targetsX (xterm M) x') then add_to 0 t (productsX (xterm M) x')
            else y1 ! t))"
proof -
  from assms obtain y3 where s: "symv_stencil e M x y = Some (x', y3, calls)"
    and p: "if p_data (precond M) = [] then y' = y3 else doSymv_inplace (precond M) y3 = Some y'"
    by (auto simp: symv_def split: Option.bind_splits if_splits)
  from s obtain y1 y2 where b: "symv_blocks M x' (replicate (length (v_data y)) 0) = Some y1"
    and ax: "applyX (xterm M) x' (y\<lparr>v_data := y1\<rparr>) = Some y2"
    and ay: "applyY (yterm M) x' y2 = Some y3"
    by (auto simp: symv_stencil_def zero_loop split: Option.bind_splits)
  from b have l1: "length y1 = length (v_data y)"
    using symv_blocks_keeps_size [of M x'] by (simp add: keeps_size_def)
  from applyX_value [OF ax] l1 have l2: "length (v_data y2) = length (v_data y)"
    and v2: "\<forall>t<length (v_data y). v_data y2 ! t =
            (if t \<in> set (targetsX (xterm M) x') then add_to 0 t (productsX (xterm M) x') else y1 ! t)"
    by simp_all
  from applyY_value [OF ay] l2 have l3: "length (v_data y3) = length (v_data y)"
    and v3: "\<forall>t<length (v_data y). v_data y3 ! t =
            (if t \<in> set (targetsY (yterm M) x') then add_to 0 t (productsY (yterm M) x') else v_data y2 ! t)"
    by simp_all
  from v2 v3 have "\<forall>t<length (v_data y). v_data y3 ! t =
           (if t \<in> set (targetsY (yterm M) x') then add_to 0 t (productsY (yterm M) x')
            else if t \<in> set (targetsX (xterm M) x') then add_to 0 t (productsX (xterm M) x')
            else y1 ! t)"
    by simp
  with b s p l3 show ?thesis by blast
qed

theorem symv_boundary_terms_overwrite_witness:
  "symv one_process dx4_edges (grid4 [1, 2, 3, 4, 5, 6, 7, 8, 9, 10, 11, 12, 13, 14, 15, 16])
        (grid4 [7, 7, 7, 7, 7, 7, 7, 7, 7, 7, 7, 7, 7, 7, 7, 7])
     = Some (grid4 [1, 2, 3, 4, 5, 6, 7, 8, 9, 10, 11, 12, 13, 14, 15, 16],
             grid4 [0, 0, 0, 0, 0, 50, 55, 0, 0, 81, 24, 0, 0, 0, 0, 0],
             [Comm_rank (Comm 1), X_col (Comm 1)])
   \<and> symv_blocks dx4_edges (grid4 [1, 2, 3, 4, 5, 6, 7, 8, 9, 10, 11, 12, 13, 14, 15, 16])
        (replicate 16 0) = Some [0, 0, 0, 0, 0, 14, 16, 0, 0, 22, 24, 0, 0, 0, 0, 0]
   \<and> targetsX (xterm dx4_edges) (grid4 [1, 2, 3, 4, 5, 6, 7, 8, 9, 10, 11, 12, 13, 14, 15, 16])
     = [5, 9, 5, 9]
   \<and> productsX (xterm dx4_edges) (grid4 [1, 2, 3, 4, 5, 6, 7, 8, 9, 10, 11, 12, 13, 14, 15, 16])
     = [(5, 21), (9, 33), (5, 32), (9, 48)]
   \<and> targetsY (yterm dx4_edges) (grid4 [1, 2, 3, 4, 5, 6, 7, 8, 9, 10, 11, 12, 13, 14, 15, 16])
     = [5, 6]
   \<and> productsY (yterm dx4_edges) (grid4 [1, 2, 3, 4, 5, 6, 7, 8, 9, 10, 11, 12, 13, 14, 15, 16])
     = [(5, 50), (6, 55)]
   \<and> v_data (grid4 [0, 0, 0, 0, 0, 50, 55, 0, 0, 81, 24, 0, 0, 0, 0, 0]) ! 5
     = add_to 0 5 [(5, 50), (6, 55)]
   \<and> v_data (grid4 [0, 0, 0, 0, 0, 50, 55, 0, 0, 81, 24, 0, 0, 0, 0, 0]) ! 6
     = add_to 0 6 [(5, 50), (6, 55)]
   \<and> v_data (grid4 [0, 0, 0, 0, 0, 50, 55, 0, 0, 81, 24, 0, 0, 0, 0, 0]) ! 9
     = add_to 0 9 [(5, 21), (9, 33), (5, 32), (9, 48)]
   \<and> v_data (grid4 [0, 0, 0, 0, 0, 50, 55, 0, 0, 81, 24, 0, 0, 0, 0, 0]) ! 10
     = [0, 0, 0, 0, 0, 14, 16, 0, 0, 22, 24, 0, 0, 0, 0, 0] ! 10"
proof -
  let ?x = "grid4 [1, 2, 3, 4, 5, 6, 7, 8, 9, 10, 11, 12, 13, 14, 15, 16]"
  let ?y = "grid4 [7, 7, 7, 7, 7, 7, 7, 7, 7, 7, 7, 7, 7, 7, 7, 7]"
  let ?r = "grid4 [0, 0, 0, 0, 0, 50, 55, 0, 0, 81, 24, 0, 0, 0, 0, 0]"
  have v: "symv one_process dx4_edges ?x ?y
           = Some (?x, ?r, [Comm_rank (Comm 1), X_col (Comm 1)])"
    by code_simp
  have b: "symv_blocks dx4_edges ?x (replicate 16 0)
           = Some [0, 0, 0, 0, 0, 14, 16, 0, 0, 22, 24, 0, 0, 0, 0, 0]"
    by code_simp
  have t: "targetsX (xterm dx4_edges) ?x = [5, 9, 5, 9]"
    "productsX (xterm dx4_edges) ?x = [(5, 21), (9, 33), (5, 32), (9, 48)]"
    "targetsY (yterm dx4_edges) ?x = [5, 6]"
    "productsY (yterm dx4_edges) ?x = [(5, 50), (6, 55)]"
    by code_simp+
  have p: "p_data (precond dx4_edges) = []"
    by code_simp
  have n: "length (v_data ?y) = 16"
    by (simp add: grid4_def)
  from symv_boundary_terms_overwrite [OF v] obtain y1 y3
    where 1: "symv_blocks dx4_edges ?x (replicate (length (v_data ?y)) 0) = Some y1"
      and 2: "if p_data (precond dx4_edges) = [] then ?r = y3
              else doSymv_inplace (precond dx4_edges) y3 = Some ?r"
      and 3: "\<forall>t<length (v_data ?y). v_data y3 ! t =
           (if t \<in> set (targetsY (yterm dx4_edges) ?x)
            then add_to 0 t (productsY (yterm dx4_edges) ?x)
            else if t \<in> set (targetsX (xterm dx4_edges) ?x)
            then add_to 0 t (productsX (xterm dx4_edges) ?x)
            else y1 ! t)"
    by blast
  from 1 b n have y1: "y1 = [0, 0, 0, 0, 0, 14, 16, 0, 0, 22, 24, 0, 0, 0, 0, 0]"
    by simp
  from 2 p have y3: "y3 = ?r"
    by simp
  from 3 have w: "\<forall>t<16. v_data ?r ! t =
           (if t \<in> {5, 6} then add_to 0 t [(5, 50), (6, 55)]
            else if t \<in> {5, 9} then add_to 0 t [(5, 21), (9, 33), (5, 32), (9, 48)]
            else [0, 0, 0, 0, 0, 14, 16, 0, 0, 22, 24, 0, 0, 0, 0, 0] ! t)"
    unfolding t n y1 y3 by simp
  have "v_data ?r ! 5 = add_to 0 5 [(5, 50), (6, 55)]"
    "v_data ?r ! 6 = add_to 0 6 [(5, 50), (6, 55)]"
    "v_data ?r ! 9 = add_to 0 9 [(5, 21), (9, 33), (5, 32), (9, 48)]"
    "v_data ?r ! 10 = [0, 0, 0, 0, 0, 14, 16, 0, 0, 22, 24, 0, 0, 0, 0, 0] ! 10"
    using w [rule_format, of 5] w [rule_format, of 6] w [rule_format, of 9] w [rule_format, of 10]
    by simp_all
  with v b t show ?thesis
    by simp
qed

section \<open>Dot products of empty vectors\<close>

lemma doDot_local_no_planes: "v_Nz x = 0 \<Longrightarrow> doDot_local x m y = Some 0"
  by (simp add: doDot_local_def)

text \<open>
  C2 (as amended). No dot product signals an \<^verbatim>\<open>InvalidArgument\<close> on empty input. On an
  empty vector of vectors \<^verbatim>\<open>doDot_superacc\<close> (and \<^verbatim>\<open>doDot\<close> on top of it) fails the
  assertion \<^verbatim>\<open>!x1.empty()\<close> in a \<^verbatim>\<open>DG_DEBUG\<close> build and otherwise returns \<^verbatim>\<open>acc[0]\<close>
  of an empty array, which is undefined; so is \<^verbatim>\<open>acc[0].Round()\<close> in the \<^verbatim>\<open>doDot\<close> of
  \<^verbatim>\<open>std_matrix_blas.cuh\<close>. The distributed weighted \<^verbatim>\<open>doDot\<close> on vectors without
  planes passes its assertions, adds nothing to \<^verbatim>\<open>temp = 0\<close> and returns what the
  all-reduce makes of that zero.
\<close>

theorem empty_dot_products:
  "doDot_superacc dbg ex component [] x2 = Inl (if dbg then Assertion_failed else Undefined_behaviour)
   \<and> doDot_vv dbg ex component [] x2 = Inl (if dbg then Assertion_failed else Undefined_behaviour)
   \<and> doDot_std dbg Accumulate Round_acc doDot_dispatch [] m []  = Inl Undefined_behaviour
   \<and> (v_Nz x = 0 \<and> length (v_data x) = length (v_data y) \<and> v_stride x = length (p_data w)
        \<longrightarrow> doDot e x w y = Some (MPI_Allreduce e MPI_COMM_WORLD 0, [Allreduce_sum MPI_COMM_WORLD]))"
  by (simp add: doDot_superacc_def doDot_vv_def doDot_std_def doDot_def doDot_local_no_planes assert_def)

theorem empty_dot_products_witness:
  "doDot one_process \<lparr> v_n = 1, v_Nx = 3, v_Ny = 3, v_Nz = 0, v_stride = 2, v_data = [] \<rparr>
        \<lparr> p_data = [5, 6] \<rparr>
        \<lparr> v_n = 1, v_Nx = 3, v_Ny = 3, v_Nz = 0, v_stride = 2, v_data = [] \<rparr>
     = Some (0, [Allreduce_sum MPI_COMM_WORLD])
   \<and> doDot_superacc True \<lparr> IMIN = 0, IMAX = 2, Normalize = (\<lambda>a. a), Round = sum_list \<rparr>
        (\<lambda>a b. Inr [a * b, 0]) ([] :: int list) ([] :: int list) = Inl Assertion_failed"
proof -
  let ?x = "\<lparr> v_n = 1, v_Nx = 3, v_Ny = 3, v_Nz = 0, v_stride = 2, v_data = [] :: int list \<rparr>"
  let ?w = "\<lparr> p_data = [5, 6::int] \<rparr>"
  let ?ex = "\<lparr> IMIN = 0, IMAX = 2, Normalize = (\<lambda>a. a), Round = sum_list :: int list \<Rightarrow> int \<rparr>"
  have h: "v_Nz ?x = 0 \<and> length (v_data ?x) = length (v_data ?x) \<and> v_stride ?x = length (p_data ?w)"
    by simp
  from empty_dot_products [of True ?ex "\<lambda>a b. Inr [a * b, 0]" "[] :: int list" "(+)" "\<lambda>a :: int. a"
      "\<lambda>(a :: int) (m :: int) b. Inr (a * m * b)" "2 :: int" ?x ?x ?w one_process] h
  show ?thesis by (simp add: one_process_def)
qed

theorem empty_doDot_returns_zero_counterexample:
  "doDot one_process \<lparr> v_n = 1, v_Nx = 0, v_Ny = 0, v_Nz = 0, v_stride = 1, v_data = [] \<rparr>
        \<lparr> p_data = [5] \<rparr>
        \<lparr> v_n = 1, v_Nx = 0, v_Ny = 0, v_Nz = 0, v_stride = 1, v_data = [] \<rparr>
     = Some (0, [Allreduce_sum MPI_COMM_WORLD])"
  by (simp add: doDot_def doDot_local_def one_process_def assert_def)

text \<open>The norm form for \<^verbatim>\<open>std::vector\<close> does return the weighted product of \<open>y\<close> with
  itself.\<close>

lemma doDot_std1_is_doDot_std:
  "doDot_std1 dbg Accumulate Round_acc doDot_dispatch m y
   = doDot_std dbg Accumulate Round_acc doDot_dispatch y m y"
  by (simp add: doDot_std1_def)

section \<open>The distributed dot product depends on the partition\<close>

text \<open>
  C1 (the code departs from it). \<^verbatim>\<open>doDot\<close> of \<^verbatim>\<open>mpi_precon_blas.h\<close> adds the products
  to a \<^verbatim>\<open>double\<close> in index order and merges the partial sums with \<^verbatim>\<open>MPI_SUM\<close>. For
  the global row \<open>2^53, 1, -2^53\<close> with weight 1 and \<open>y = 1\<close>: on one process the sum
  is \<open>(2^53 + 1) - 2^53\<close>, where \<open>2^53 + 1\<close> rounds to \<open>2^53\<close>, so the result is 0; on
  two processes holding \<open>2^53\<close> and \<open>1, -2^53\<close> the partial sums are \<open>2^53\<close> and
  \<open>1 - 2^53\<close>, both exact, and every process returns their sum 1.
\<close>

theorem doDot_depends_on_partition:
  "doDot group_of_one
      (row_grid 5 [0, 0, 0, 0, 0,  0, Finite (2 ^ 53), 1, Finite (- (2 ^ 53)), 0,  0, 0, 0, 0, 0])
      \<lparr> p_data = [1] \<rparr>
      (row_grid 5 [1, 1, 1, 1, 1,  1, 1, 1, 1, 1,  1, 1, 1, 1, 1])
     = Some (Finite 0, [Allreduce_sum MPI_COMM_WORLD])
   \<and> doDot_local (row_grid 3 [0, 0, 0,  0, Finite (2 ^ 53), 0,  0, 0, 0]) \<lparr> p_data = [1] \<rparr>
        (row_grid 3 [1, 1, 1,  1, 1, 1,  1, 1, 1]) = Some (Finite (2 ^ 53))
   \<and> doDot_local (row_grid 4 [0, 0, 0, 0,  0, 1, Finite (- (2 ^ 53)), 0,  0, 0, 0, 0]) \<lparr> p_data = [1] \<rparr>
        (row_grid 4 [1, 1, 1, 1,  1, 1, 1, 1,  1, 1, 1, 1]) = Some (Finite (1 - 2 ^ 53))
   \<and> doDot (one_of_two (Finite (1 - 2 ^ 53)))
        (row_grid 3 [0, 0, 0,  0, Finite (2 ^ 53), 0,  0, 0, 0]) \<lparr> p_data = [1] \<rparr>
        (row_grid 3 [1, 1, 1,  1, 1, 1,  1, 1, 1])
     = Some (Finite 1, [Allreduce_sum MPI_COMM_WORLD])
   \<and> doDot (one_of_two (Finite (2 ^ 53)))
        (row_grid 4 [0, 0, 0, 0,  0, 1, Finite (- (2 ^ 53)), 0,  0, 0, 0, 0]) \<lparr> p_data = [1] \<rparr>
        (row_grid 4 [1, 1, 1, 1,  1, 1, 1, 1,  1, 1, 1, 1])
     = Some (Finite 1, [Allreduce_sum MPI_COMM_WORLD])"
  by code_simp

end
